theory Spec2Isabelle
  imports Complex_Main
begin

section \<open>Numbers and randomness\<close>

text \<open>
  The game is a single JavaScript file. Its Numbers are modelled first as exact reals: every
  arithmetic expression of the source is written out as it stands, and no binary64 rounding
  is applied to its result. Where a count of updates turns on that rounding (the life of a
  particle), the rounded computation is given beside the exact one. The statements that do
  not survive the rounding (the spacing of the obstacles, the velocity of the player in
  flight, the cap of the speed) are made about a second rendering of the program, given in
  the section on binary64 arithmetic below, in which every operation of the source rounds.
  \<^verbatim>\<open>Math.random()\<close> returns a Number in the half-open
  interval from 0 to 1; the type \<open>rand01\<close> holds exactly those values, and a random source is
  an infinite sequence of them, consumed from the front, one element per call.
\<close>

typedef rand01 = "{r::real. 0 \<le> r \<and> r < 1}"
  by (rule exI [of _ 0]) simp

setup_lifting type_definition_rand01

lift_definition rand_of_nat_ratio :: "nat \<Rightarrow> nat \<Rightarrow> rand01" is
  "\<lambda>a b. if a < b then real a / real b else 0"
  by simp

type_synonym rng = "nat \<Rightarrow> rand01"

definition Math_random :: "rng \<Rightarrow> real \<times> rng" where
  "Math_random g = (Rep_rand01 (g 0), \<lambda>n. g (Suc n))"

section \<open>CONFIG\<close>

text \<open>
  The canvas size is read from the window when the script loads and again on every resize;
  the other entries of \<^verbatim>\<open>CONFIG\<close> are literals of the source.
\<close>

record CONFIG =
  CANVAS_WIDTH :: real
  CANVAS_HEIGHT :: real

definition GRAVITY :: real where "GRAVITY = 0.8"
definition JUMP_FORCE :: real where "JUMP_FORCE = - 15"
definition GROUND_HEIGHT :: real where "GROUND_HEIGHT = 100"
definition PLAYER_SIZE :: real where "PLAYER_SIZE = 40"

datatype GAME_STATES = MENU | PLAYING | PAUSED | GAME_OVER

section \<open>Particle\<close>

record Velocity =
  x_v :: real
  y_v :: real

record Particle =
  x_p :: real
  y_p :: real
  color_p :: string
  velocity_p :: Velocity
  life_p :: real
  decay_p :: real
  size_p :: real

text \<open>
  The constructor: an absent velocity argument is replaced by a random one (two draws), and
  the size always takes one draw.
\<close>

definition Particle_new ::
    "real \<Rightarrow> real \<Rightarrow> string \<Rightarrow> Velocity option \<Rightarrow> rng \<Rightarrow> Particle \<times> rng" where
  "Particle_new x0 y0 col vel g0 =
     (let (v, g1) =
        (case vel of
           Some v \<Rightarrow> (v, g0)
         | None \<Rightarrow>
             (let (r1, ga) = Math_random g0;
                  (r2, gb) = Math_random ga
              in (\<lparr>x_v = (r1 - 0.5) * 10, y_v = (r2 - 0.5) * 10\<rparr>, gb)));
          (r3, g2) = Math_random g1
      in (\<lparr>x_p = x0, y_p = y0, color_p = col, velocity_p = v,
           life_p = 1.0, decay_p = 0.02, size_p = r3 * 4 + 2\<rparr>, g2))"

definition Particle_update :: "Particle \<Rightarrow> Particle" where
  "Particle_update p =
     (let p1 = p\<lparr>x_p := x_p p + x_v (velocity_p p)\<rparr>;
          p2 = p1\<lparr>y_p := y_p p1 + y_v (velocity_p p1)\<rparr>;
          p3 = p2\<lparr>velocity_p := (velocity_p p2)\<lparr>y_v := y_v (velocity_p p2) + 0.2\<rparr>\<rparr>;
          p4 = p3\<lparr>life_p := life_p p3 - decay_p p3\<rparr>
      in p4\<lparr>size_p := size_p p4 * 0.98\<rparr>)"

definition isDead :: "Particle \<Rightarrow> bool" where
  "isDead p = (life_p p \<le> 0)"

subsection \<open>The life of a particle under binary64 rounding\<close>

text \<open>
  The statement \<^verbatim>\<open>this.life -= this.decay\<close> once more, this time with the rounding of
  JavaScript's Numbers. A binary64 value is written as an integer count of units of
  \<open>2\<^sup>-\<^sup>5\<^sup>8\<close>: the literal \<^verbatim>\<open>1.0\<close> is \<open>2\<^sup>5\<^sup>8\<close> units, and the literal \<^verbatim>\<open>0.02\<close> is the
  binary64 number nearest to one fiftieth, 5764607523034235 units. A difference of two such
  values is rounded to 53 significant bits, ties to even; every value between \<open>-1\<close> and \<open>1\<close>
  that has at most 53 significant bits and is a whole number of units is a binary64 number,
  so neither overflow nor subnormal numbers come into play.
\<close>

function bit_length :: "int \<Rightarrow> nat" where
  "bit_length n = (if n \<le> 0 then 0 else Suc (bit_length (n div 2)))"
  by pat_completeness auto
termination
  by (relation "measure nat") auto

definition round_half_even :: "int \<Rightarrow> nat \<Rightarrow> int" where
  "round_half_even n k =
     (let q = n div 2 ^ k; r = n mod 2 ^ k
      in if 2 * r < 2 ^ k then q
         else if 2 * r > 2 ^ k then q + 1
         else if even q then q else q + 1)"

definition binary64_round :: "int \<Rightarrow> int" where
  "binary64_round n =
     (let k = bit_length \<bar>n\<bar> - 53 in round_half_even n k * 2 ^ k)"

definition binary64_sub :: "int \<Rightarrow> int \<Rightarrow> int" where
  "binary64_sub a b = binary64_round (a - b)"

definition decay_binary64 :: int where
  "decay_binary64 = 5764607523034235"

text \<open>The life before the first update and after each of the next \<open>n\<close> updates.\<close>

fun life_trace :: "nat \<Rightarrow> int \<Rightarrow> int list" where
  "life_trace 0 l = [l]"
| "life_trace (Suc n) l = l # life_trace n (binary64_sub l decay_binary64)"

section \<open>Trail\<close>

record TrailPoint =
  x_tp :: real
  y_tp :: real
  life_tp :: real

record Trail =
  points :: "TrailPoint list"
  maxPoints :: nat

definition Trail_new :: Trail where
  "Trail_new = \<lparr>points = [], maxPoints = 20\<rparr>"

text \<open>\<^verbatim>\<open>push\<close> appends at the end, \<^verbatim>\<open>shift\<close> removes the first element.\<close>

definition addPoint :: "real \<Rightarrow> real \<Rightarrow> Trail \<Rightarrow> Trail" where
  "addPoint x0 y0 t =
     (let ps = points t @ [\<lparr>x_tp = x0, y_tp = y0, life_tp = 1.0\<rparr>]
      in t\<lparr>points := (if length ps > maxPoints t then tl ps else ps)\<rparr>)"

definition Trail_update :: "Trail \<Rightarrow> Trail" where
  "Trail_update t =
     t\<lparr>points := filter (\<lambda>q. life_tp q > 0)
                    (map (\<lambda>q. q\<lparr>life_tp := life_tp q - 0.05\<rparr>) (points t))\<rparr>"

text \<open>A call sequence on one trail, applied left to right.\<close>

datatype Trail_call = AddPoint real real | Update

fun Trail_step :: "Trail_call \<Rightarrow> Trail \<Rightarrow> Trail" where
  "Trail_step (AddPoint x0 y0) t = addPoint x0 y0 t"
| "Trail_step Update t = Trail_update t"

definition Trail_run :: "Trail_call list \<Rightarrow> Trail \<Rightarrow> Trail" where
  "Trail_run cs t = fold Trail_step cs t"

section \<open>Player\<close>

text \<open>\<^verbatim>\<open>Player.update\<close> returns one of two strings to the game loop.\<close>

datatype PlayerState = alive | death

record Player =
  x_pl :: real
  y_pl :: real
  width_pl :: real
  height_pl :: real
  velocityY :: real
  onGround :: bool
  rotation :: real
  color_pl :: string
  trail :: Trail

definition Player_reset :: "CONFIG \<Rightarrow> Player \<Rightarrow> Player" where
  "Player_reset cfg p =
     p\<lparr>x_pl := 100,
       y_pl := CANVAS_HEIGHT cfg - GROUND_HEIGHT - PLAYER_SIZE,
       width_pl := PLAYER_SIZE,
       height_pl := PLAYER_SIZE,
       velocityY := 0,
       onGround := False,
       rotation := 0,
       color_pl := ''#00ffff''\<rparr>"

text \<open>
  The constructor calls \<^verbatim>\<open>reset\<close> on the new object and then gives it an empty trail;
  \<^verbatim>\<open>reset\<close> assigns every other field, so the fields of the object before the call do
  not matter.
\<close>

definition Player_new :: "CONFIG \<Rightarrow> Player" where
  "Player_new cfg =
     (Player_reset cfg
        \<lparr>x_pl = 0, y_pl = 0, width_pl = 0, height_pl = 0, velocityY = 0, onGround = False,
         rotation = 0, color_pl = [], trail = Trail_new\<rparr>)\<lparr>trail := Trail_new\<rparr>"

definition jump :: "Player \<Rightarrow> Player" where
  "jump p = (if onGround p then p\<lparr>velocityY := JUMP_FORCE, onGround := False\<rparr> else p)"

text \<open>
  \<^verbatim>\<open>Player.update\<close> in the order of the source: gravity and integration, the ground
  test, the ceiling test, the trail, the returned string. The two tests are named so that
  statements can refer to them.
\<close>

definition Player_integrate :: "Player \<Rightarrow> Player" where
  "Player_integrate p =
     (let p1 = p\<lparr>velocityY := velocityY p + GRAVITY\<rparr>
      in p1\<lparr>y_pl := y_pl p1 + velocityY p1\<rparr>)"

definition hitsGround :: "CONFIG \<Rightarrow> Player \<Rightarrow> bool" where
  "hitsGround cfg p = (y_pl p + height_pl p \<ge> CANVAS_HEIGHT cfg - GROUND_HEIGHT)"

definition Player_ground :: "CONFIG \<Rightarrow> Player \<Rightarrow> Player" where
  "Player_ground cfg p =
     (let groundY = CANVAS_HEIGHT cfg - GROUND_HEIGHT
      in if hitsGround cfg p
         then p\<lparr>y_pl := groundY - height_pl p, velocityY := 0, onGround := True, rotation := 0\<rparr>
         else p\<lparr>onGround := False, rotation := rotation p + 0.15\<rparr>)"

definition hitsCeiling :: "Player \<Rightarrow> bool" where
  "hitsCeiling p = (y_pl p \<le> 0)"

definition Player_ceiling :: "Player \<Rightarrow> Player" where
  "Player_ceiling p = (if hitsCeiling p then p\<lparr>y_pl := 0, velocityY := 0\<rparr> else p)"

definition Player_update :: "CONFIG \<Rightarrow> Player \<Rightarrow> Player \<times> PlayerState" where
  "Player_update cfg p =
     (let p1 = Player_integrate p;
          p2 = Player_ground cfg p1;
          p3 = Player_ceiling p2;
          p4 = p3\<lparr>trail := addPoint (x_pl p3 + width_pl p3 / 2) (y_pl p3 + height_pl p3 / 2)
                              (trail p3)\<rparr>;
          p5 = p4\<lparr>trail := Trail_update (trail p4)\<rparr>
      in (p5, alive))"

record Bounds =
  x_b :: real
  y_b :: real
  width_b :: real
  height_b :: real

definition getBounds :: "Player \<Rightarrow> Bounds" where
  "getBounds p =
     \<lparr>x_b = x_pl p + 2, y_b = y_pl p + 2, width_b = width_pl p - 4, height_b = height_pl p - 4\<rparr>"

section \<open>Camera\<close>

record Camera =
  x_c :: real
  shake :: real
  shakeDecay :: real

definition Camera_new :: Camera where
  "Camera_new = \<lparr>x_c = 0, shake = 0, shakeDecay = 0.9\<rparr>"

definition Camera_update :: "Camera \<Rightarrow> Camera" where
  "Camera_update c = (if shake c > 0 then c\<lparr>shake := shake c * shakeDecay c\<rparr> else c)"

definition addShake :: "real \<Rightarrow> Camera \<Rightarrow> Camera" where
  "addShake intensity c = c\<lparr>shake := max (shake c) intensity\<rparr>"

section \<open>ObstacleGenerator\<close>

record ObstacleTemplate =
  type_tm :: string
  width_tm :: real
  height_tm :: real
  color_tm :: string
  ground :: bool
  glow :: "bool option"
  filled :: "bool option"

record Obstacle =
  x_o :: real
  y_o :: real
  width_o :: real
  height_o :: real
  type_o :: string
  color_o :: string
  isAir :: bool

text \<open>
  The catalogue is assigned once in the constructor and never written again, so it is a
  constant here. An optional flag that a literal leaves out is \<open>None\<close>.
\<close>

definition obstacleTypes :: "ObstacleTemplate list" where
  "obstacleTypes =
     [\<lparr>type_tm = ''spike'', width_tm = 40, height_tm = 60, color_tm = ''#02ff70ff'',
        ground = True, glow = Some True, filled = None\<rparr>,
      \<lparr>type_tm = ''cube'', width_tm = 50, height_tm = 50, color_tm = ''#8844ff'',
        ground = True, glow = None, filled = Some True\<rparr>,
      \<lparr>type_tm = ''cube'', width_tm = 50, height_tm = 50, color_tm = ''#4488ff'',
        ground = True, glow = None, filled = Some False\<rparr>,
      \<lparr>type_tm = ''orb'', width_tm = 35, height_tm = 35, color_tm = ''#ffff00'',
        ground = True, glow = Some True, filled = None\<rparr>,
      \<lparr>type_tm = ''robot'', width_tm = 45, height_tm = 55, color_tm = ''#00ff88'',
        ground = True, glow = None, filled = None\<rparr>,
      \<lparr>type_tm = ''ship'', width_tm = 60, height_tm = 35, color_tm = ''#ff8800'',
        ground = True, glow = None, filled = None\<rparr>,
      \<lparr>type_tm = ''ball'', width_tm = 40, height_tm = 40, color_tm = ''#ff44ff'',
        ground = True, glow = None, filled = None\<rparr>,
      \<lparr>type_tm = ''wave'', width_tm = 55, height_tm = 30, color_tm = ''#44ffff'',
        ground = True, glow = None, filled = None\<rparr>,
      \<lparr>type_tm = ''spider'', width_tm = 50, height_tm = 40, color_tm = ''#ff4444'',
        ground = True, glow = None, filled = None\<rparr>,
      \<lparr>type_tm = ''swing'', width_tm = 45, height_tm = 50, color_tm = ''#88ff44'',
        ground = True, glow = None, filled = None\<rparr>,
      \<lparr>type_tm = ''ufo'', width_tm = 60, height_tm = 25, color_tm = ''#aaaaaa'',
        ground = False, glow = None, filled = None\<rparr>,
      \<lparr>type_tm = ''star'', width_tm = 30, height_tm = 30, color_tm = ''#ffff00'',
        ground = False, glow = Some True, filled = None\<rparr>,
      \<lparr>type_tm = ''star'', width_tm = 20, height_tm = 20, color_tm = ''#ffff88'',
        ground = False, glow = Some True, filled = None\<rparr>]"

record ObstacleGenerator =
  obstacles :: "Obstacle list"
  nextObstacleX :: real

definition ObstacleGenerator_new :: "CONFIG \<Rightarrow> ObstacleGenerator" where
  "ObstacleGenerator_new cfg = \<lparr>obstacles = [], nextObstacleX = CANVAS_WIDTH cfg\<rparr>"

definition ObstacleGenerator_reset :: "CONFIG \<Rightarrow> ObstacleGenerator \<Rightarrow> ObstacleGenerator" where
  "ObstacleGenerator_reset cfg G = G\<lparr>obstacles := [], nextObstacleX := CANVAS_WIDTH cfg\<rparr>"

text \<open>
  \<^verbatim>\<open>generateObstacle\<close> draws the spacing, then the template index, then (for an air
  template only) the height. The index \<open>\<lfloor>r * 13\<rfloor>\<close> of a draw \<open>r\<close> is below 13, so the
  catalogue lookup is always in range (lemma \<open>template_index_in_range\<close>).
\<close>

definition generateObstacle ::
    "CONFIG \<Rightarrow> real \<Rightarrow> real \<Rightarrow> ObstacleGenerator \<Rightarrow> rng \<Rightarrow> ObstacleGenerator \<times> rng" where
  "generateObstacle cfg speed dst G g0 =
     (let minDistance = 300;
          maxDistance = 500;
          (r1, g1) = Math_random g0;
          distanceFromLast = minDistance + r1 * (maxDistance - minDistance);
          G1 = (if length (obstacles G) > 0
                then G\<lparr>nextObstacleX := x_o (last (obstacles G)) + distanceFromLast\<rparr>
                else G\<lparr>nextObstacleX := CANVAS_WIDTH cfg + 200\<rparr>);
          (r2, g2) = Math_random g1;
          obstacleTemplate = obstacleTypes ! nat \<lfloor>r2 * real (length obstacleTypes)\<rfloor>;
          (obstacleY, g3) =
            (if ground obstacleTemplate
             then (CANVAS_HEIGHT cfg - GROUND_HEIGHT - height_tm obstacleTemplate, g2)
             else (let (r3, gc) = Math_random g2 in (50 + r3 * 150, gc)));
          obstacle =
            \<lparr>x_o = nextObstacleX G1, y_o = obstacleY, width_o = width_tm obstacleTemplate,
             height_o = height_tm obstacleTemplate, type_o = type_tm obstacleTemplate,
             color_o = color_tm obstacleTemplate, isAir = (\<not> ground obstacleTemplate)\<rparr>
      in (G1\<lparr>obstacles := obstacles G1 @ [obstacle]\<rparr>, g3))"

definition ObstacleGenerator_update ::
    "CONFIG \<Rightarrow> real \<Rightarrow> real \<Rightarrow> ObstacleGenerator \<Rightarrow> rng \<Rightarrow> ObstacleGenerator \<times> rng" where
  "ObstacleGenerator_update cfg speed dst G g0 =
     (let G1 = G\<lparr>obstacles := map (\<lambda>obstacle. obstacle\<lparr>x_o := x_o obstacle - speed\<rparr>)
                                (obstacles G)\<rparr>;
          G2 = G1\<lparr>obstacles := filter (\<lambda>obs. x_o obs + width_o obs > - 100) (obstacles G1)\<rparr>
      in if length (obstacles G2) = 0 \<or> x_o (last (obstacles G2)) < CANVAS_WIDTH cfg
         then generateObstacle cfg speed dst G2 g0
         else (G2, g0))"

text \<open>
  A sequence of \<^verbatim>\<open>update\<close> calls on one generator; each call comes with the canvas size
  at that moment, the speed and the distance, and the calls share one random source.
\<close>

fun ObstacleGenerator_updates ::
    "(CONFIG \<times> real \<times> real) list \<Rightarrow> ObstacleGenerator \<Rightarrow> rng \<Rightarrow> ObstacleGenerator \<times> rng" where
  "ObstacleGenerator_updates [] G g = (G, g)"
| "ObstacleGenerator_updates ((cfg, speed, dst) # calls) G g =
     (let (G', g') = ObstacleGenerator_update cfg speed dst G g
      in ObstacleGenerator_updates calls G' g')"

text \<open>The loop of \<^verbatim>\<open>checkCollision\<close> returns at the first obstacle that overlaps.\<close>

fun checkCollision_loop :: "Bounds \<Rightarrow> Obstacle list \<Rightarrow> bool" where
  "checkCollision_loop playerBounds [] = False"
| "checkCollision_loop playerBounds (obstacle # rest) =
     (if x_o obstacle < x_b playerBounds + width_b playerBounds \<and>
         x_o obstacle + width_o obstacle > x_b playerBounds \<and>
         y_o obstacle < y_b playerBounds + height_b playerBounds \<and>
         y_o obstacle + height_o obstacle > y_b playerBounds
      then True
      else checkCollision_loop playerBounds rest)"

definition checkCollision :: "ObstacleGenerator \<Rightarrow> Player \<Rightarrow> bool" where
  "checkCollision G p = checkCollision_loop (getBounds p) (obstacles G)"

section \<open>Game\<close>

text \<open>
  The game object, without the canvas, the drawing and the page elements it writes text to.
  \<open>config\<close> is the global \<^verbatim>\<open>CONFIG\<close>, which a resize of the window overwrites. The best
  score and distance come from the browser's storage when the game is constructed.
\<close>

record Game =
  config :: CONFIG
  state :: GAME_STATES
  score :: int
  highScore :: int
  highDistance :: int
  gameSpeed :: real
  distance :: real
  player :: Player
  camera :: Camera
  obstacleGenerator :: ObstacleGenerator
  particles :: "Particle list"
  backgroundOffset :: real

definition Game_new :: "CONFIG \<Rightarrow> int \<Rightarrow> int \<Rightarrow> Game" where
  "Game_new cfg storedScore storedDistance =
     \<lparr>config = cfg, state = MENU, score = 0, highScore = storedScore,
      highDistance = storedDistance, gameSpeed = 5, distance = 0, player = Player_new cfg,
      camera = Camera_new, obstacleGenerator = ObstacleGenerator_new cfg, particles = [],
      backgroundOffset = 0\<rparr>"

definition startGame :: "Game \<Rightarrow> Game" where
  "startGame G =
     G\<lparr>state := PLAYING, score := 0, distance := 0, gameSpeed := 5,
       player := Player_reset (config G) (player G),
       camera := Camera_new,
       obstacleGenerator := ObstacleGenerator_reset (config G) (obstacleGenerator G),
       particles := []\<rparr>"

definition pauseGame :: "Game \<Rightarrow> Game" where
  "pauseGame G = (if state G = PLAYING then G\<lparr>state := PAUSED\<rparr> else G)"

definition resumeGame :: "Game \<Rightarrow> Game" where
  "resumeGame G = (if state G = PAUSED then G\<lparr>state := PLAYING\<rparr> else G)"

definition showMenu :: "Game \<Rightarrow> Game" where
  "showMenu G = G\<lparr>state := MENU\<rparr>"

text \<open>
  The explosion loop of \<^verbatim>\<open>gameOver\<close>; the first argument counts the particles still to
  be pushed. Each particle takes two draws for its velocity and one, in the constructor, for
  its size.
\<close>

fun explosion :: "nat \<Rightarrow> Player \<Rightarrow> Particle list \<Rightarrow> rng \<Rightarrow> Particle list \<times> rng" where
  "explosion 0 pl ps g0 = (ps, g0)"
| "explosion (Suc n) pl ps g0 =
     (let (r1, g1) = Math_random g0;
          (r2, g2) = Math_random g1;
          (q, g3) = Particle_new (x_pl pl + width_pl pl / 2) (y_pl pl + height_pl pl / 2)
                      ''#ff3333'' (Some \<lparr>x_v = (r1 - 0.5) * 20, y_v = (r2 - 0.5) * 20\<rparr>) g2
      in explosion n pl (ps @ [q]) g3)"

definition gameOver :: "Game \<Rightarrow> rng \<Rightarrow> Game \<times> rng" where
  "gameOver G g0 =
     (let G1 = G\<lparr>state := GAME_OVER\<rparr>;
          G2 = G1\<lparr>camera := addShake 20 (camera G1)\<rparr>;
          G3 = (if score G2 > highScore G2 then G2\<lparr>highScore := score G2\<rparr> else G2);
          G4 = (if distance G3 > real_of_int (highDistance G3)
                then G3\<lparr>highDistance := \<lfloor>distance G3\<rfloor>\<rparr> else G3);
          (ps, g1) = explosion 50 (player G4) (particles G4) g0
      in (G4\<lparr>particles := ps\<rparr>, g1))"

text \<open>
  \<^verbatim>\<open>Game.update\<close> has four ways out: the state is not \<^verbatim>\<open>PLAYING\<close>; the player's
  update returned \<^verbatim>\<open>'death'\<close>; a collision; the end of the body. The model returns which
  one was taken beside the new game.
\<close>

datatype UpdateExit = NotPlaying | PlayerDeath | Collision | Completed

definition Game_update_exit :: "Game \<Rightarrow> rng \<Rightarrow> UpdateExit \<times> Game" where
  "Game_update_exit G g0 =
     (if state G \<noteq> PLAYING then (NotPlaying, G)
      else
        let (pl, playerState) = Player_update (config G) (player G);
            G1 = G\<lparr>player := pl\<rparr>
        in if playerState = death then (PlayerDeath, fst (gameOver G1 g0))
           else
             let G2 = G1\<lparr>distance := distance G1 + gameSpeed G1 * 0.1\<rparr>;
                 G3 = G2\<lparr>gameSpeed := min (5 + distance G2 / 500) 10\<rparr>;
                 G4 = G3\<lparr>backgroundOffset := backgroundOffset G3 + gameSpeed G3 * 0.3\<rparr>;
                 G5 = G4\<lparr>score := \<lfloor>distance G4 / 10\<rfloor>\<rparr>;
                 G6 = G5\<lparr>camera := Camera_update (camera G5)\<rparr>;
                 (og, g1) = ObstacleGenerator_update (config G6) (gameSpeed G6) (distance G6)
                              (obstacleGenerator G6) g0;
                 G7 = G6\<lparr>obstacleGenerator := og\<rparr>
             in if checkCollision (obstacleGenerator G7) (player G7)
                then (Collision, fst (gameOver G7 g1))
                else (Completed,
                      G7\<lparr>particles := filter (\<lambda>particle. \<not> isDead particle)
                                         (map Particle_update (particles G7))\<rparr>))"

definition Game_update :: "Game \<Rightarrow> rng \<Rightarrow> Game" where
  "Game_update G g0 = snd (Game_update_exit G g0)"

text \<open>
  What can happen to a game after its construction: a frame of the loop (with the random
  values it draws), a call of one of the four methods the buttons and keys are wired to, a
  call of the player's \<^verbatim>\<open>jump\<close>, a resize of the window. The key and pointer handlers
  call these methods under conditions on the state, so every state the page can reach is the
  result of such a sequence.
\<close>

datatype Event = Frame rng | StartGame | PauseGame | ResumeGame | ShowMenu | Jump | Resize CONFIG

fun Game_step :: "Event \<Rightarrow> Game \<Rightarrow> Game" where
  "Game_step (Frame g0) G = Game_update G g0"
| "Game_step StartGame G = startGame G"
| "Game_step PauseGame G = pauseGame G"
| "Game_step ResumeGame G = resumeGame G"
| "Game_step ShowMenu G = showMenu G"
| "Game_step Jump G = G\<lparr>player := jump (player G)\<rparr>"
| "Game_step (Resize cfg) G = G\<lparr>config := cfg\<rparr>"

definition Game_run :: "Event list \<Rightarrow> Game \<Rightarrow> Game" where
  "Game_run evs G = fold Game_step evs G"

section \<open>The program in binary64 arithmetic\<close>

text \<open>
  JavaScript's Numbers are binary64 floating-point numbers, and every arithmetic operation of
  the source rounds its exact result to the nearest of them, ties to the even significand.
  The definitions above leave that rounding out. Where a statement turns on it, the functions
  of the program are given again in this section, on the same records, with each operation of
  the source followed by the rounding.

  A finite binary64 number is a real number. \<open>binary64 x\<close> is the binary64 number nearest to
  \<open>x\<close>: with \<open>e\<close> the exponent of \<open>x\<close> (not below \<open>-1022\<close>, where the subnormal numbers
  begin), \<open>x\<close> is rounded to a whole multiple of \<open>2\<^sup>e\<^sup>-\<^sup>5\<^sup>2\<close>. A decimal literal of the source
  denotes the binary64 number nearest to it. Numbers beyond the largest binary64 number, and
  with them the infinities and NaN, are left out; nothing in the game comes near them.
\<close>

definition nearest_even :: "real \<Rightarrow> int" where
  "nearest_even y =
     (let f = \<lfloor>y\<rfloor>; r = y - of_int f
      in if r < 1 / 2 then f
         else if 1 / 2 < r then f + 1
         else if even f then f else f + 1)"

text \<open>\<open>floor_log2 a\<close> is the integer \<open>e\<close> with \<open>2\<^sup>e \<le> a < 2\<^sup>e\<^sup>+\<^sup>1\<close>, for positive \<open>a\<close>.\<close>

definition floor_log2 :: "real \<Rightarrow> int" where
  "floor_log2 a =
     (if 1 \<le> a then int (bit_length \<lfloor>a\<rfloor>) - 1
      else - int (bit_length (\<lceil>1 / a\<rceil> - 1)))"

definition binary64_exponent :: "real \<Rightarrow> int" where
  "binary64_exponent x = max (- 1022) (floor_log2 \<bar>x\<bar>)"

definition binary64 :: "real \<Rightarrow> real" where
  "binary64 x =
     (if x = 0 then 0
      else let u = 2 powi (binary64_exponent x - 52)
           in of_int (nearest_even (x / u)) * u)"

definition add64 :: "real \<Rightarrow> real \<Rightarrow> real" where
  "add64 a b = binary64 (a + b)"

definition sub64 :: "real \<Rightarrow> real \<Rightarrow> real" where
  "sub64 a b = binary64 (a - b)"

definition mul64 :: "real \<Rightarrow> real \<Rightarrow> real" where
  "mul64 a b = binary64 (a * b)"

definition div64 :: "real \<Rightarrow> real \<Rightarrow> real" where
  "div64 a b = binary64 (a / b)"

text \<open>\<^verbatim>\<open>Math.random()\<close> returns a binary64 number in the half-open interval from 0 to 1.\<close>

typedef rand64 = "{r::real. 0 \<le> r \<and> r < 1 \<and> binary64 r = r}"
  by (rule exI [of _ 0]) (simp add: binary64_def)

setup_lifting type_definition_rand64

lift_definition rand64_zero :: rand64 is "0"
  by (simp add: binary64_def)

lift_definition rand64_half :: rand64 is "1 / 2"
  by (simp add: binary64_def binary64_exponent_def floor_log2_def nearest_even_def
      bit_length.simps)

type_synonym rng64 = "nat \<Rightarrow> rand64"

definition Math_random64 :: "rng64 \<Rightarrow> real \<times> rng64" where
  "Math_random64 g = (Rep_rand64 (g 0), \<lambda>n. g (Suc n))"

definition GRAVITY64 :: real where "GRAVITY64 = binary64 0.8"

subsection \<open>Particle and Trail\<close>



definition Trail_update64 :: "Trail \<Rightarrow> Trail" where
  "Trail_update64 t =
     t\<lparr>points := filter (\<lambda>q. life_tp q > 0)
                    (map (\<lambda>q. q\<lparr>life_tp := sub64 (life_tp q) (binary64 0.05)\<rparr>) (points t))\<rparr>"

subsection \<open>Player\<close>

definition Player_reset64 :: "CONFIG \<Rightarrow> Player \<Rightarrow> Player" where
  "Player_reset64 cfg p =
     p\<lparr>x_pl := 100,
       y_pl := sub64 (sub64 (CANVAS_HEIGHT cfg) GROUND_HEIGHT) PLAYER_SIZE,
       width_pl := PLAYER_SIZE,
       height_pl := PLAYER_SIZE,
       velocityY := 0,
       onGround := False,
       rotation := 0,
       color_pl := ''#00ffff''\<rparr>"

definition Player_new64 :: "CONFIG \<Rightarrow> Player" where
  "Player_new64 cfg =
     (Player_reset64 cfg
        \<lparr>x_pl = 0, y_pl = 0, width_pl = 0, height_pl = 0, velocityY = 0, onGround = False,
         rotation = 0, color_pl = [], trail = Trail_new\<rparr>)\<lparr>trail := Trail_new\<rparr>"

text \<open>
  \<^verbatim>\<open>jump\<close> and the ceiling branch assign constants and compute nothing, so \<open>jump\<close>,
  \<open>hitsCeiling\<close> and \<open>Player_ceiling\<close> serve here as they are.
\<close>

definition Player_integrate64 :: "Player \<Rightarrow> Player" where
  "Player_integrate64 p =
     (let p1 = p\<lparr>velocityY := add64 (velocityY p) GRAVITY64\<rparr>
      in p1\<lparr>y_pl := add64 (y_pl p1) (velocityY p1)\<rparr>)"

definition hitsGround64 :: "CONFIG \<Rightarrow> Player \<Rightarrow> bool" where
  "hitsGround64 cfg p =
     (add64 (y_pl p) (height_pl p) \<ge> sub64 (CANVAS_HEIGHT cfg) GROUND_HEIGHT)"

definition Player_ground64 :: "CONFIG \<Rightarrow> Player \<Rightarrow> Player" where
  "Player_ground64 cfg p =
     (let groundY = sub64 (CANVAS_HEIGHT cfg) GROUND_HEIGHT
      in if hitsGround64 cfg p
         then p\<lparr>y_pl := sub64 groundY (height_pl p), velocityY := 0, onGround := True,
                rotation := 0\<rparr>
         else p\<lparr>onGround := False, rotation := add64 (rotation p) (binary64 0.15)\<rparr>)"

definition Player_update64 :: "CONFIG \<Rightarrow> Player \<Rightarrow> Player \<times> PlayerState" where
  "Player_update64 cfg p =
     (let p1 = Player_integrate64 p;
          p2 = Player_ground64 cfg p1;
          p3 = Player_ceiling p2;
          p4 = p3\<lparr>trail := addPoint (add64 (x_pl p3) (div64 (width_pl p3) 2))
                              (add64 (y_pl p3) (div64 (height_pl p3) 2)) (trail p3)\<rparr>;
          p5 = p4\<lparr>trail := Trail_update64 (trail p4)\<rparr>
      in (p5, alive))"

text \<open>\<open>n\<close> consecutive calls of \<^verbatim>\<open>update\<close> on one player.\<close>

definition Player_updates64 :: "CONFIG \<Rightarrow> nat \<Rightarrow> Player \<Rightarrow> Player" where
  "Player_updates64 cfg n p = ((\<lambda>q. fst (Player_update64 cfg q)) ^^ n) p"

text \<open>
  Whether the next \<^verbatim>\<open>update\<close> of a player takes the ground branch or the ceiling
  branch.
\<close>

definition clampFires64 :: "CONFIG \<Rightarrow> Player \<Rightarrow> bool" where
  "clampFires64 cfg p =
     (hitsGround64 cfg (Player_integrate64 p) \<or>
      hitsCeiling (Player_ground64 cfg (Player_integrate64 p)))"


subsection \<open>Camera\<close>



subsection \<open>ObstacleGenerator\<close>

definition generateObstacle64 ::
    "CONFIG \<Rightarrow> real \<Rightarrow> real \<Rightarrow> ObstacleGenerator \<Rightarrow> rng64 \<Rightarrow> ObstacleGenerator \<times> rng64" where
  "generateObstacle64 cfg speed dst G g0 =
     (let minDistance = 300;
          maxDistance = 500;
          (r1, g1) = Math_random64 g0;
          distanceFromLast = add64 minDistance (mul64 r1 (sub64 maxDistance minDistance));
          G1 = (if length (obstacles G) > 0
                then G\<lparr>nextObstacleX := add64 (x_o (last (obstacles G))) distanceFromLast\<rparr>
                else G\<lparr>nextObstacleX := add64 (CANVAS_WIDTH cfg) 200\<rparr>);
          (r2, g2) = Math_random64 g1;
          obstacleTemplate = obstacleTypes ! nat \<lfloor>mul64 r2 (real (length obstacleTypes))\<rfloor>;
          (obstacleY, g3) =
            (if ground obstacleTemplate
             then (sub64 (sub64 (CANVAS_HEIGHT cfg) GROUND_HEIGHT) (height_tm obstacleTemplate),
                   g2)
             else (let (r3, gc) = Math_random64 g2 in (add64 50 (mul64 r3 150), gc)));
          obstacle =
            \<lparr>x_o = nextObstacleX G1, y_o = obstacleY, width_o = width_tm obstacleTemplate,
             height_o = height_tm obstacleTemplate, type_o = type_tm obstacleTemplate,
             color_o = color_tm obstacleTemplate, isAir = (\<not> ground obstacleTemplate)\<rparr>
      in (G1\<lparr>obstacles := obstacles G1 @ [obstacle]\<rparr>, g3))"

definition ObstacleGenerator_update64 ::
    "CONFIG \<Rightarrow> real \<Rightarrow> real \<Rightarrow> ObstacleGenerator \<Rightarrow> rng64 \<Rightarrow> ObstacleGenerator \<times> rng64" where
  "ObstacleGenerator_update64 cfg speed dst G g0 =
     (let G1 = G\<lparr>obstacles := map (\<lambda>obstacle. obstacle\<lparr>x_o := sub64 (x_o obstacle) speed\<rparr>)
                                (obstacles G)\<rparr>;
          G2 = G1\<lparr>obstacles := filter (\<lambda>obs. add64 (x_o obs) (width_o obs) > - 100)
                                   (obstacles G1)\<rparr>
      in if length (obstacles G2) = 0 \<or> x_o (last (obstacles G2)) < CANVAS_WIDTH cfg
         then generateObstacle64 cfg speed dst G2 g0
         else (G2, g0))"



subsection \<open>Game\<close>







section \<open>Notions used in the statements\<close>

text \<open>A canvas of 800 by 600, for the concrete runs.\<close>

definition cfg0 :: CONFIG where
  "cfg0 = \<lparr>CANVAS_WIDTH = 800, CANVAS_HEIGHT = 600\<rparr>"

text \<open>
  The invariant of a trail: the capacity is 20, at most 20 samples are held, and the samples
  stand in the order of their remaining life, the one with the least life (the oldest) first.
\<close>

definition Trail_inv :: "Trail \<Rightarrow> bool" where
  "Trail_inv t =
     (maxPoints t = 20 \<and> length (points t) \<le> 20 \<and>
      sorted (map life_tp (points t)) \<and> list_all (\<lambda>q. life_tp q \<le> 1) (points t))"




text \<open>The invariant of the game's counters.\<close>

definition Game_inv :: "Game \<Rightarrow> bool" where
  "Game_inv G = (score G = \<lfloor>distance G / 10\<rfloor> \<and> 0 \<le> distance G \<and> 5 \<le> gameSpeed G)"

text \<open>
  A running game with a cube standing where the player is and a second one off screen to the
  right, so that the next frame collides and spawns nothing.
\<close>

definition crashGame :: Game where
  "crashGame =
     (startGame (Game_new cfg0 0 0))
       \<lparr>obstacleGenerator :=
          \<lparr>obstacles =
             [\<lparr>x_o = 110, y_o = 450, width_o = 50, height_o = 50, type_o = ''cube'',
               color_o = ''#8844ff'', isAir = False\<rparr>,
              \<lparr>x_o = 900, y_o = 450, width_o = 50, height_o = 50, type_o = ''cube'',
               color_o = ''#8844ff'', isAir = False\<rparr>],
           nextObstacleX = 900\<rparr>\<rparr>"

text \<open>A canvas only 150 high.\<close>

definition cfgLow :: CONFIG where
  "cfgLow = \<lparr>CANVAS_WIDTH = 800, CANVAS_HEIGHT = 150\<rparr>"


text \<open>
  The spacing drawn at a spawn, and the obstacles that one call of \<^verbatim>\<open>update\<close> keeps: all of
  them moved left by the speed, those that have left the screen dropped.
\<close>

definition distanceFromLast64 :: "rng64 \<Rightarrow> real" where
  "distanceFromLast64 g = add64 300 (mul64 (fst (Math_random64 g)) (sub64 500 300))"

definition kept64 :: "real \<Rightarrow> ObstacleGenerator \<Rightarrow> Obstacle list" where
  "kept64 speed G =
     filter (\<lambda>obs. add64 (x_o obs) (width_o obs) > - 100)
       (map (\<lambda>obstacle. obstacle\<lparr>x_o := sub64 (x_o obstacle) speed\<rparr>) (obstacles G))"

text \<open>
  The generator of a game on the 800 by 600 canvas after 99 frames in which every draw of
  \<^verbatim>\<open>Math.random()\<close> was 0: two spikes, spawned at the first and at the 41st frame. The 100th
  frame calls \<^verbatim>\<open>update\<close> with the speed \<open>2871605741790533 / 2\<^sup>4\<^sup>9\<close> and the distance
  \<open>3553498417748297 / 2\<^sup>4\<^sup>6\<close>.
\<close>

definition spike_at :: "real \<Rightarrow> Obstacle" where
  "spike_at x =
     \<lparr>x_o = x, y_o = 440, width_o = 40, height_o = 60, type_o = ''spike'',
      color_o = ''#02ff70ff'', isAir = False\<rparr>"

definition frame99 :: ObstacleGenerator where
  "frame99 =
     \<lparr>obstacles = [spike_at (8884379452675461 / 2 ^ 44), spike_at (3540508816500063 / 2 ^ 42)],
      nextObstacleX = 3540508816500063 / 2 ^ 42\<rparr>"

text \<open>
  The height of the jump arc above its start after \<open>k\<close> airborne updates, in exact arithmetic:
  the sum of the velocities \<open>- 15 + 0.8 i\<close> for \<open>i\<close> from 1 to \<open>k\<close>.
\<close>

definition arc :: "nat \<Rightarrow> real" where
  "arc k = - 15 * real k + 0.4 * real k * (real k + 1)"

text \<open>A player that has landed once and then jumped.\<close>

definition jumper64 :: Player where
  "jumper64 = jump (fst (Player_update64 cfg0 (Player_new64 cfg0)))"
section \<open>Particle: dead after exactly fifty updates\<close>

lemma Particle_update_life:
  "life_p ((Particle_update ^^ n) p) = life_p p - real n * decay_p p \<and>
   decay_p ((Particle_update ^^ n) p) = decay_p p"
  by (induction n) (simp_all add: Particle_update_def Let_def algebra_simps)

lemma Particle_new_life:
  "life_p (fst (Particle_new x0 y0 col vel g)) = 1 \<and>
   decay_p (fst (Particle_new x0 y0 col vel g)) = 0.02"
  by (simp add: Particle_new_def Let_def split: option.splits prod.splits)

text \<open>
  Claim C9. A particle comes out of its constructor with life 1 and decay 0.02, whatever the
  arguments and the random draws. After \<open>n\<close> updates with \<open>n < 50\<close> (so after each of the
  first 49) \<^verbatim>\<open>isDead()\<close> is false; after the 50th it is true, the life having come
  down to 0.
\<close>

theorem particle_dead_after_50:
  "(n < 50 \<longrightarrow> \<not> isDead ((Particle_update ^^ n) (fst (Particle_new x0 y0 col vel g)))) \<and>
   isDead ((Particle_update ^^ 50) (fst (Particle_new x0 y0 col vel g)))"
  by (simp add: isDead_def Particle_update_life Particle_new_life)

theorem particle_dead_after_50_witness:
  "(49::nat) < 50 \<and>
   \<not> isDead ((Particle_update ^^ 49) (fst (Particle_new 3 4 ''#ff3333'' None (\<lambda>_. rand_of_nat_ratio 1 2)))) \<and>
   isDead ((Particle_update ^^ 50) (fst (Particle_new 3 4 ''#ff3333'' None (\<lambda>_. rand_of_nat_ratio 1 2))))"
  using particle_dead_after_50 [of 49 3 4 "''#ff3333''" None "\<lambda>_. rand_of_nat_ratio 1 2"]
  by simp

text \<open>
  The same count under binary64 rounding. The decay constant is the whole number of units
  nearest to a fiftieth of \<open>2\<^sup>5\<^sup>8\<close>. Of the 51 successive values of the life, the first 50
  (before any update and after each of the first 49) are positive and the last (after the
  50th update) is not: it is \<open>-178\<close> units, about \<open>-6.2 \<times> 10\<^sup>-\<^sup>1\<^sup>6\<close>.
\<close>

lemma decay_binary64_nearest: "\<bar>50 * decay_binary64 - 2 ^ 58\<bar> < 25"
  by (simp add: decay_binary64_def)

lemma bit_length_0: "bit_length 0 = 0"
  by (subst bit_length.simps) simp

lemma bit_length_numeral: "bit_length (numeral w) = Suc (bit_length (numeral w div 2))"
  by (subst bit_length.simps) simp

lemma particle_dead_after_50_binary64:
  "length (life_trace 50 (2 ^ 58)) = 51 \<and>
   list_all (\<lambda>l. 0 < l) (take 50 (life_trace 50 (2 ^ 58))) \<and>
   life_trace 50 (2 ^ 58) ! 50 = - 178"
  by (simp add: eval_nat_numeral binary64_sub_def binary64_round_def round_half_even_def
      decay_binary64_def Let_def bit_length_0 bit_length_numeral)

section \<open>Trail: capacity and first-in-first-out eviction\<close>

lemma Trail_inv_new: "Trail_inv Trail_new"
  by (simp add: Trail_inv_def Trail_new_def)

lemma sorted_tl: "sorted xs \<Longrightarrow> sorted (tl xs)"
  by (cases xs) simp_all

lemma Trail_inv_addPoint:
  assumes "Trail_inv t"
  shows "Trail_inv (addPoint x0 y0 t)"
proof -
  let ?ps = "points t @ [\<lparr>x_tp = x0, y_tp = y0, life_tp = 1\<rparr>]"
  from assms have s: "sorted (map life_tp ?ps)"
    by (auto simp: Trail_inv_def sorted_append list_all_iff)
  from assms have a: "list_all (\<lambda>q. life_tp q \<le> 1) ?ps"
    by (simp add: Trail_inv_def)
  have "sorted (map life_tp (tl ?ps))"
    using sorted_tl [OF s] by (simp add: map_tl)
  moreover have "list_all (\<lambda>q. life_tp q \<le> 1) (tl ?ps)"
    using a by (cases "points t") simp_all
  ultimately show ?thesis
    using assms s a by (simp add: Trail_inv_def addPoint_def Let_def)
qed

lemma Trail_inv_update:
  assumes "Trail_inv t"
  shows "Trail_inv (Trail_update t)"
proof -
  let ?ms = "map (\<lambda>q. q\<lparr>life_tp := life_tp q - 0.05\<rparr>) (points t)"
  have "sorted_wrt (\<lambda>a b. life_tp a \<le> life_tp b) ?ms"
    using assms by (simp add: Trail_inv_def sorted_map sorted_wrt_map)
  then have "sorted (map life_tp (filter (\<lambda>q. life_tp q > 0) ?ms))"
    unfolding sorted_map by (rule sorted_wrt_filter)
  moreover have "length (filter (\<lambda>q. life_tp q > 0) ?ms) \<le> 20"
  proof -
    have "length (filter (\<lambda>q. life_tp q > 0) ?ms) \<le> length ?ms"
      by (rule length_filter_le)
    also have "\<dots> \<le> 20"
      using assms by (simp add: Trail_inv_def)
    finally show ?thesis .
  qed
  moreover have "list_all (\<lambda>q. life_tp q \<le> 1) (filter (\<lambda>q. life_tp q > 0) ?ms)"
    using assms by (auto simp: Trail_inv_def list_all_iff)
  ultimately show ?thesis
    using assms by (simp add: Trail_inv_def Trail_update_def)
qed

lemma Trail_inv_run: "Trail_inv t \<Longrightarrow> Trail_inv (Trail_run cs t)"
  unfolding Trail_run_def
proof (induction cs arbitrary: t)
  case Nil
  then show ?case by simp
next
  case (Cons c cs)
  have "Trail_inv (Trail_step c t)"
    using Cons.prems by (cases c) (simp_all add: Trail_inv_addPoint Trail_inv_update)
  then show ?case using Cons.IH by simp
qed

text \<open>
  Claim C7. After any sequence of \<^verbatim>\<open>addPoint\<close> and \<^verbatim>\<open>update\<close> calls on a new trail,
  the trail holds at most 20 samples, ordered by remaining life with the oldest first. An
  \<^verbatim>\<open>addPoint\<close> on a trail with fewer than 20 samples appends and evicts nothing; on a full
  trail it appends and evicts exactly the first, oldest, sample, the others keeping their
  order.
\<close>

theorem trail_bounded_fifo:
  "length (points (Trail_run cs Trail_new)) \<le> 20 \<and>
   sorted (map life_tp (points (Trail_run cs Trail_new))) \<and>
   (length (points (Trail_run cs Trail_new)) < 20 \<longrightarrow>
      points (addPoint x0 y0 (Trail_run cs Trail_new)) =
        points (Trail_run cs Trail_new) @ [\<lparr>x_tp = x0, y_tp = y0, life_tp = 1\<rparr>]) \<and>
   (length (points (Trail_run cs Trail_new)) = 20 \<longrightarrow>
      hd (points (Trail_run cs Trail_new)) # points (addPoint x0 y0 (Trail_run cs Trail_new)) =
        points (Trail_run cs Trail_new) @ [\<lparr>x_tp = x0, y_tp = y0, life_tp = 1\<rparr>])"
proof -
  let ?t = "Trail_run cs Trail_new"
  have inv: "Trail_inv ?t"
    by (rule Trail_inv_run [OF Trail_inv_new])
  have "hd (points ?t) # tl (points ?t @ [q]) = points ?t @ [q]"
    if "length (points ?t) = 20" for q
    using that by (cases "points ?t") simp_all
  then show ?thesis
    using inv by (auto simp: Trail_inv_def addPoint_def Let_def)
qed

theorem trail_bounded_fifo_witness:
  "length (points (Trail_run [] Trail_new)) < 20 \<and>
   points (addPoint 3 4 (Trail_run [] Trail_new)) =
     points (Trail_run [] Trail_new) @ [\<lparr>x_tp = 3, y_tp = 4, life_tp = 1\<rparr>] \<and>
   length (points (Trail_run (replicate 20 (AddPoint 1 2)) Trail_new)) = 20 \<and>
   hd (points (Trail_run (replicate 20 (AddPoint 1 2)) Trail_new)) #
     points (addPoint 3 4 (Trail_run (replicate 20 (AddPoint 1 2)) Trail_new)) =
   points (Trail_run (replicate 20 (AddPoint 1 2)) Trail_new) @
     [\<lparr>x_tp = 3, y_tp = 4, life_tp = 1\<rparr>]"
proof -
  have e: "length (points (Trail_run [] Trail_new)) < 20"
    by (simp add: Trail_run_def Trail_new_def)
  have l: "length (points (Trail_run (replicate 20 (AddPoint 1 2)) Trail_new)) = 20"
    by (simp add: eval_nat_numeral Trail_run_def addPoint_def Trail_new_def Let_def)
  show ?thesis
    using e l trail_bounded_fifo [of "[]" 3 4]
      trail_bounded_fifo [of "replicate 20 (AddPoint 1 2)" 3 4]
    by simp
qed

section \<open>Player: jumping\<close>

text \<open>
  Claim C6. When \<open>onGround\<close> is false, \<^verbatim>\<open>jump()\<close> returns the player unchanged in every
  field; when it is true, \<^verbatim>\<open>jump()\<close> sets the vertical velocity to the impulse and clears
  \<open>onGround\<close>, and nothing else; the player changes if and only if \<open>onGround\<close> was true.
\<close>

theorem jump_iff_onGround:
  "(\<not> onGround p \<longrightarrow> jump p = p) \<and>
   (onGround p \<longrightarrow> jump p = p\<lparr>velocityY := JUMP_FORCE, onGround := False\<rparr>) \<and>
   (jump p \<noteq> p) = onGround p"
proof -
  have "p\<lparr>velocityY := JUMP_FORCE, onGround := False\<rparr> \<noteq> p" if "onGround p"
  proof
    assume "p\<lparr>velocityY := JUMP_FORCE, onGround := False\<rparr> = p"
    then have "onGround (p\<lparr>velocityY := JUMP_FORCE, onGround := False\<rparr>) = onGround p"
      by simp
    with that show False by simp
  qed
  then show ?thesis by (auto simp: jump_def)
qed

theorem jump_iff_onGround_witness:
  "\<not> onGround (Player_new cfg0) \<and> jump (Player_new cfg0) = Player_new cfg0 \<and>
   onGround (fst (Player_update cfg0 (Player_new cfg0))) \<and>
   jump (fst (Player_update cfg0 (Player_new cfg0))) =
     (fst (Player_update cfg0 (Player_new cfg0)))\<lparr>velocityY := JUMP_FORCE, onGround := False\<rparr>"
proof -
  have a: "\<not> onGround (Player_new cfg0)"
    by (simp add: Player_new_def Player_reset_def)
  have b: "onGround (fst (Player_update cfg0 (Player_new cfg0)))"
    by (simp add: Player_update_def Player_integrate_def Player_ground_def Player_ceiling_def
        hitsGround_def hitsCeiling_def Player_new_def Player_reset_def cfg0_def Let_def
        GRAVITY_def GROUND_HEIGHT_def PLAYER_SIZE_def)
  show ?thesis
    using a b jump_iff_onGround [of "Player_new cfg0"]
      jump_iff_onGround [of "fst (Player_update cfg0 (Player_new cfg0))"]
    by simp
qed

section \<open>Collision test\<close>




section \<open>The frame update\<close>

lemma Player_update_signal: "snd (Player_update cfg p) = alive"
  by (simp add: Player_update_def Let_def)

lemma gameOver_state: "state (fst (gameOver G g)) = GAME_OVER"
  by (simp add: gameOver_def Let_def split: prod.splits)

lemma gameOver_keeps:
  "distance (fst (gameOver G g)) = distance G"
  "gameSpeed (fst (gameOver G g)) = gameSpeed G"
  "score (fst (gameOver G g)) = score G"
  by (simp_all add: gameOver_def Let_def split: prod.splits)

lemma Player_update_pair: "Player_update cfg p = (fst (Player_update cfg p), alive)"
  by (simp add: Player_update_def Let_def)

lemma Game_update_exit_cases:
  "fst (Game_update_exit G g) =
     (if state G \<noteq> PLAYING then NotPlaying
      else if state (snd (Game_update_exit G g)) = GAME_OVER then Collision else Completed)"
proof (cases "state G = PLAYING")
  case False
  then show ?thesis by (simp add: Game_update_exit_def)
next
  case True
  obtain og g1 where og:
    "ObstacleGenerator_update (config G) (min (5 + (distance G + gameSpeed G * 0.1) / 500) 10)
       (distance G + gameSpeed G * 0.1) (obstacleGenerator G) g = (og, g1)"
    by (cases "ObstacleGenerator_update (config G)
       (min (5 + (distance G + gameSpeed G * 0.1) / 500) 10)
       (distance G + gameSpeed G * 0.1) (obstacleGenerator G) g") 
  show ?thesis
    using True og
    apply (subst (1 2) Game_update_exit_def)
    apply (subst (1 2) Player_update_pair)
    apply (simp add: Let_def gameOver_state)
    done
qed

lemma Game_update_playing:
  assumes "state G = PLAYING"
  shows "distance (Game_update G g) = distance G + gameSpeed G * 0.1"
    and "gameSpeed (Game_update G g) = min (5 + distance (Game_update G g) / 500) 10"
    and "score (Game_update G g) = \<lfloor>distance (Game_update G g) / 10\<rfloor>"
proof -
  obtain og g1 where og:
    "ObstacleGenerator_update (config G) (min (5 + (distance G + gameSpeed G * 0.1) / 500) 10)
       (distance G + gameSpeed G * 0.1) (obstacleGenerator G) g = (og, g1)"
    by (cases "ObstacleGenerator_update (config G)
       (min (5 + (distance G + gameSpeed G * 0.1) / 500) 10)
       (distance G + gameSpeed G * 0.1) (obstacleGenerator G) g") 
  have e: "distance (Game_update G g) = distance G + gameSpeed G * 0.1 \<and>
    gameSpeed (Game_update G g) = min (5 + (distance G + gameSpeed G * 0.1) / 500) 10 \<and>
    score (Game_update G g) = \<lfloor>(distance G + gameSpeed G * 0.1) / 10\<rfloor>"
    using assms og
    unfolding Game_update_def
    apply (subst (1 2 3) Game_update_exit_def)
    apply (subst (1 2 3) Player_update_pair)
    apply (simp add: Let_def gameOver_keeps)
    done
  from e show "distance (Game_update G g) = distance G + gameSpeed G * 0.1" by simp
  from e show "gameSpeed (Game_update G g) = min (5 + distance (Game_update G g) / 500) 10" by simp
  from e show "score (Game_update G g) = \<lfloor>distance (Game_update G g) / 10\<rfloor>" by simp
qed

lemma Game_update_not_playing: "state G \<noteq> PLAYING \<Longrightarrow> Game_update G g = G"
  by (simp add: Game_update_def Game_update_exit_def)

lemma gameOver_keeps_bodies:
  "player (fst (gameOver G g)) = player G"
  "obstacleGenerator (fst (gameOver G g)) = obstacleGenerator G"
  by (simp_all add: gameOver_def Let_def split: prod.splits)

lemma Game_update_collision_iff:
  assumes "state G = PLAYING"
  shows "(fst (Game_update_exit G g) = Collision) =
         checkCollision (obstacleGenerator (Game_update G g)) (player (Game_update G g))"
proof -
  obtain og g1 where og:
    "ObstacleGenerator_update (config G) (min (5 + (distance G + gameSpeed G * 0.1) / 500) 10)
       (distance G + gameSpeed G * 0.1) (obstacleGenerator G) g = (og, g1)"
    by (cases "ObstacleGenerator_update (config G)
       (min (5 + (distance G + gameSpeed G * 0.1) / 500) 10)
       (distance G + gameSpeed G * 0.1) (obstacleGenerator G) g") 
  show ?thesis
    using assms og
    unfolding Game_update_def
    apply (subst (1 2 3) Game_update_exit_def)
    apply (subst (1 2 3) Player_update_pair)
    apply (simp add: Let_def gameOver_keeps_bodies)
    done
qed

lemma Game_step_state_GAME_OVER:
  assumes "state G \<noteq> GAME_OVER" and "state (Game_step ev G) = GAME_OVER"
  shows "\<exists>g. ev = Frame g"
  using assms
  by (cases ev) (auto simp: startGame_def pauseGame_def resumeGame_def showMenu_def
      split: if_splits)

text \<open>
  Claim C10. \<^verbatim>\<open>Player.update\<close> returns \<^verbatim>\<open>'alive'\<close> for every player, so
  \<^verbatim>\<open>Game.update\<close> never leaves through its \<^verbatim>\<open>'death'\<close> branch. A game that is not over
  becomes over only by a frame that leaves through the collision branch, the collision test
  being true of the generator and the player that frame produced.
\<close>

theorem player_update_never_death:
  "snd (Player_update cfg p) = alive \<and>
   fst (Game_update_exit G g) \<noteq> PlayerDeath \<and>
   (state G \<noteq> GAME_OVER \<and> state (Game_step ev G) = GAME_OVER \<longrightarrow>
      (\<exists>g'. ev = Frame g' \<and> fst (Game_update_exit G g') = Collision \<and>
            checkCollision (obstacleGenerator (Game_update G g')) (player (Game_update G g'))))"
proof -
  have "fst (Game_update_exit G g) \<noteq> PlayerDeath"
    by (subst Game_update_exit_cases) simp
  moreover have "\<exists>g'. ev = Frame g' \<and> fst (Game_update_exit G g') = Collision \<and>
      checkCollision (obstacleGenerator (Game_update G g')) (player (Game_update G g'))"
    if a: "state G \<noteq> GAME_OVER" and b: "state (Game_step ev G) = GAME_OVER"
  proof -
    from Game_step_state_GAME_OVER [OF a b] obtain g' where ev: "ev = Frame g'" ..
    with b have over: "state (Game_update G g') = GAME_OVER" by simp
    have playing: "state G = PLAYING"
    proof (rule ccontr)
      assume "state G \<noteq> PLAYING"
      then have "Game_update G g' = G" by (rule Game_update_not_playing)
      with over a show False by simp
    qed
    have "fst (Game_update_exit G g') = Collision"
      using playing over by (subst Game_update_exit_cases) (simp add: Game_update_def)
    with ev playing show ?thesis
      by (simp add: Game_update_collision_iff)
  qed
  ultimately show ?thesis by (simp add: Player_update_signal)
qed

lemma crashGame_over:
  "state crashGame \<noteq> GAME_OVER \<and>
   state (Game_step (Frame (\<lambda>_. rand_of_nat_ratio 1 2)) crashGame) = GAME_OVER"
  unfolding Game_step.simps Game_update_def
  apply (subst Game_update_exit_def)
  apply (subst Player_update_pair)
  apply (simp add: crashGame_def startGame_def Game_new_def cfg0_def Let_def gameOver_state
      ObstacleGenerator_update_def ObstacleGenerator_reset_def ObstacleGenerator_new_def
      checkCollision_def getBounds_def Player_update_def Player_integrate_def Player_ground_def
      Player_ceiling_def hitsGround_def hitsCeiling_def Player_new_def Player_reset_def
      GRAVITY_def GROUND_HEIGHT_def PLAYER_SIZE_def)
  done

theorem player_update_never_death_witness:
  "state crashGame \<noteq> GAME_OVER \<and>
   state (Game_step (Frame (\<lambda>_. rand_of_nat_ratio 1 2)) crashGame) = GAME_OVER \<and>
   (\<exists>g'. Frame (\<lambda>_. rand_of_nat_ratio 1 2) = Frame g' \<and>
      fst (Game_update_exit crashGame g') = Collision \<and>
      checkCollision (obstacleGenerator (Game_update crashGame g'))
        (player (Game_update crashGame g')))"
  using crashGame_over
    player_update_never_death [of cfg0 "Player_new cfg0" crashGame "\<lambda>_. rand_of_nat_ratio 1 2"
      "Frame (\<lambda>_. rand_of_nat_ratio 1 2)"]
  by blast

lemma Game_inv_new: "Game_inv (Game_new cfg bs bd)"
  by (simp add: Game_inv_def Game_new_def)

lemma Game_inv_update: 
  assumes "Game_inv G"
  shows "Game_inv (Game_update G g)"
proof (cases "state G = PLAYING")
  case True
  have d: "distance (Game_update G g) = distance G + gameSpeed G * 0.1"
    by (rule Game_update_playing(1) [OF True])
  with assms have "0 \<le> distance (Game_update G g)"
    by (simp add: Game_inv_def)
  then show ?thesis
    using Game_update_playing(2,3) [OF True, of g] by (simp add: Game_inv_def min_def)
next
  case False
  with assms show ?thesis by (simp add: Game_update_not_playing)
qed

lemma Game_inv_step: "Game_inv G \<Longrightarrow> Game_inv (Game_step ev G)"
  by (cases ev)
    (simp_all add: Game_inv_update, 
     simp_all add: Game_inv_def startGame_def pauseGame_def resumeGame_def showMenu_def)

lemma Game_inv_run: "Game_inv G \<Longrightarrow> Game_inv (Game_run evs G)"
  unfolding Game_run_def
  by (induction evs arbitrary: G) (simp_all add: Game_inv_step)

text \<open>
  Claim C3. In every state the game reaches from its construction, the score is the floor of
  a tenth of the distance. A frame update does not decrease the distance when the state is
  \<^verbatim>\<open>PLAYING\<close>, and leaves it unchanged when the state is \<^verbatim>\<open>MENU\<close>, \<^verbatim>\<open>PAUSED\<close> or
  \<^verbatim>\<open>GAME_OVER\<close>.
\<close>

theorem score_floor_distance_monotone:
  "score (Game_run evs (Game_new cfg bs bd)) =
     \<lfloor>distance (Game_run evs (Game_new cfg bs bd)) / 10\<rfloor> \<and>
   (state (Game_run evs (Game_new cfg bs bd)) = PLAYING \<longrightarrow>
      distance (Game_run evs (Game_new cfg bs bd)) \<le>
        distance (Game_update (Game_run evs (Game_new cfg bs bd)) g)) \<and>
   (state (Game_run evs (Game_new cfg bs bd)) \<in> {MENU, PAUSED, GAME_OVER} \<longrightarrow>
      distance (Game_update (Game_run evs (Game_new cfg bs bd)) g) =
        distance (Game_run evs (Game_new cfg bs bd)))"
proof -
  let ?G = "Game_run evs (Game_new cfg bs bd)"
  have inv: "Game_inv ?G"
    by (rule Game_inv_run [OF Game_inv_new])
  have "distance ?G \<le> distance (Game_update ?G g)" if "state ?G = PLAYING"
    using inv Game_update_playing(1) [OF that, of g] by (simp add: Game_inv_def)
  moreover have "distance (Game_update ?G g) = distance ?G"
    if "state ?G \<in> {MENU, PAUSED, GAME_OVER}"
  proof -
    from that have "state ?G \<noteq> PLAYING" by auto
    then show ?thesis by (simp add: Game_update_not_playing)
  qed
  ultimately show ?thesis
    using inv unfolding Game_inv_def by blast
qed

theorem score_floor_distance_monotone_witness:
  "state (Game_run [StartGame] (Game_new cfg0 7 9)) = PLAYING \<and>
   distance (Game_run [StartGame] (Game_new cfg0 7 9)) \<le>
     distance (Game_update (Game_run [StartGame] (Game_new cfg0 7 9)) (\<lambda>_. rand_of_nat_ratio 1 2)) \<and>
   state (Game_run [] (Game_new cfg0 7 9)) \<in> {MENU, PAUSED, GAME_OVER} \<and>
   distance (Game_update (Game_run [] (Game_new cfg0 7 9)) (\<lambda>_. rand_of_nat_ratio 1 2)) =
     distance (Game_run [] (Game_new cfg0 7 9))"
proof -
  have a: "state (Game_run [StartGame] (Game_new cfg0 7 9)) = PLAYING"
    by (simp add: Game_run_def startGame_def)
  have b: "state (Game_run [] (Game_new cfg0 7 9)) \<in> {MENU, PAUSED, GAME_OVER}"
    by (simp add: Game_run_def Game_new_def)
  show ?thesis
    using a b
      score_floor_distance_monotone [of "[StartGame]" cfg0 7 9 "\<lambda>_. rand_of_nat_ratio 1 2"]
      score_floor_distance_monotone [of "[]" cfg0 7 9 "\<lambda>_. rand_of_nat_ratio 1 2"]
    by blast
qed

section \<open>Rounding to binary64\<close>

lemma bit_length_neg_numeral: "bit_length (- numeral w) = 0"
  by (subst bit_length.simps) simp

text \<open>The rules that evaluate \<open>binary64\<close> at a numeral.\<close>

lemmas binary64_eval = binary64_def binary64_exponent_def floor_log2_def nearest_even_def Let_def
  bit_length_0 bit_length_numeral bit_length_neg_numeral

subsection \<open>Rounding to the nearest integer\<close>

lemma nearest_even_cases:
  "nearest_even y = \<lfloor>y\<rfloor> \<or> nearest_even y = \<lfloor>y\<rfloor> + 1"
  by (simp add: nearest_even_def Let_def)

lemma nearest_even_char:
  "\<bar>of_int (nearest_even y) - y\<bar> < 1 / 2 \<or>
   (\<bar>of_int (nearest_even y) - y\<bar> = 1 / 2 \<and> even (nearest_even y))"
proof -
  define r where "r = y - of_int \<lfloor>y\<rfloor>"
  have r: "0 \<le> r" "r < 1"
    unfolding r_def by linarith+
  have y: "y = of_int \<lfloor>y\<rfloor> + r"
    by (simp add: r_def)
  consider "r < 1 / 2" | "1 / 2 < r" | "r = 1 / 2" "even \<lfloor>y\<rfloor>" | "r = 1 / 2" "odd \<lfloor>y\<rfloor>"
    by fastforce
  then show ?thesis
  proof cases
    case 1
    then have "nearest_even y = \<lfloor>y\<rfloor>"
      by (simp add: nearest_even_def Let_def r_def)
    with 1 r show ?thesis
      by (subst (2 4) y) simp
  next
    case 2
    then have "nearest_even y = \<lfloor>y\<rfloor> + 1"
      by (simp add: nearest_even_def Let_def r_def)
    with 2 r show ?thesis
      by (subst (2 4) y) simp
  next
    case 3
    then have "nearest_even y = \<lfloor>y\<rfloor>"
      by (simp add: nearest_even_def Let_def r_def)
    with 3 show ?thesis
      by (subst (2 4) y) simp
  next
    case 4
    then have "nearest_even y = \<lfloor>y\<rfloor> + 1"
      by (simp add: nearest_even_def Let_def r_def)
    with 4 show ?thesis
      by (subst (2 4) y) simp
  qed
qed

lemma nearest_even_error: "\<bar>of_int (nearest_even y) - y\<bar> \<le> 1 / 2"
  using nearest_even_char [of y] by linarith

lemma nearest_even_unique:
  assumes "\<bar>of_int n - y\<bar> < 1 / 2 \<or> (\<bar>of_int n - y\<bar> = 1 / 2 \<and> even n)"
  shows "nearest_even y = n"
proof -
  let ?m = "nearest_even y"
  have c: "\<bar>of_int ?m - y\<bar> < 1 / 2 \<or> (\<bar>of_int ?m - y\<bar> = 1 / 2 \<and> even ?m)"
    by (rule nearest_even_char)
  have "\<bar>(of_int n :: real) - of_int ?m\<bar> \<le> 1"
    using assms c by linarith
  then have "\<bar>n - ?m\<bar> \<le> 1"
    by (metis of_int_diff of_int_abs of_int_le_1_iff)
  then consider "n = ?m" | "n = ?m + 1" | "n = ?m - 1"
    by linarith
  then show ?thesis
  proof cases
    case 1
    then show ?thesis by simp
  next
    case 2
    then have e: "(of_int n :: real) = of_int ?m + 1"
      by simp
    have "\<bar>of_int n - y\<bar> = 1 / 2" "\<bar>of_int ?m - y\<bar> = 1 / 2"
      using assms c e by linarith+
    with assms c have "even n" "even ?m" by auto
    with 2 show ?thesis by simp
  next
    case 3
    then have e: "(of_int n :: real) = of_int ?m - 1"
      by simp
    have "\<bar>of_int n - y\<bar> = 1 / 2" "\<bar>of_int ?m - y\<bar> = 1 / 2"
      using assms c e by linarith+
    with assms c have "even n" "even ?m" by auto
    with 3 show ?thesis by simp
  qed
qed

lemma nearest_even_of_int: "nearest_even (of_int n) = n"
  by (rule nearest_even_unique) simp

lemma nearest_even_minus: "nearest_even (- y) = - nearest_even y"
proof (rule nearest_even_unique)
  have "\<bar>of_int (- nearest_even y) - (- y)\<bar> = \<bar>of_int (nearest_even y) - y\<bar>"
    by simp
  then show "\<bar>of_int (- nearest_even y) - (- y)\<bar> < 1 / 2 \<or>
      (\<bar>of_int (- nearest_even y) - (- y)\<bar> = 1 / 2 \<and> even (- nearest_even y))"
    using nearest_even_char [of y] by simp
qed

lemma nearest_even_mono:
  assumes "a \<le> b"
  shows "nearest_even a \<le> nearest_even b"
proof (rule ccontr)
  assume "\<not> nearest_even a \<le> nearest_even b"
  then have gt: "nearest_even b + 1 \<le> nearest_even a"
    by simp
  then have "(of_int (nearest_even b) :: real) + 1 \<le> of_int (nearest_even a)"
    by (metis of_int_1 of_int_add of_int_le_iff)
  with assms nearest_even_error [of a] nearest_even_error [of b]
  have "a = b"
    by linarith
  with gt show False by simp
qed

lemma nearest_even_le_int: "y \<le> of_int n \<Longrightarrow> nearest_even y \<le> n"
  using nearest_even_mono [of y "of_int n"] by (simp add: nearest_even_of_int)

lemma nearest_even_ge_int: "of_int n \<le> y \<Longrightarrow> n \<le> nearest_even y"
  using nearest_even_mono [of "of_int n" y] by (simp add: nearest_even_of_int)

subsection \<open>The exponent\<close>

lemma bit_length_bounds:
  "0 < n \<Longrightarrow> 2 ^ (bit_length n - 1) \<le> n \<and> n < 2 ^ bit_length n"
proof (induction n rule: bit_length.induct)
  case (1 n)
  show ?case
  proof (cases "n div 2 = 0")
    case True
    with "1.prems" have "n = 1" by linarith
    then show ?thesis
      by (simp add: bit_length.simps [of 1] bit_length_0)
  next
    case False
    with "1.prems" have pos: "0 < n div 2" by linarith
    with "1.IH" "1.prems" have ih:
      "2 ^ (bit_length (n div 2) - 1) \<le> n div 2" "n div 2 < 2 ^ bit_length (n div 2)"
      by simp_all
    have k: "0 < bit_length (n div 2)"
      using pos by (subst bit_length.simps) simp
    have b: "bit_length n = Suc (bit_length (n div 2))"
      using "1.prems" by (subst bit_length.simps) simp
    have "(2::int) ^ bit_length (n div 2) = 2 * 2 ^ (bit_length (n div 2) - 1)"
      using k by (cases "bit_length (n div 2)") simp_all
    with ih have "2 ^ bit_length (n div 2) \<le> n" "n < 2 * 2 ^ bit_length (n div 2)"
      by linarith+
    then show ?thesis
      by (simp add: b)
  qed
qed


lemma floor_log2_bounds:
  assumes "0 < a"
  shows "2 powi floor_log2 a \<le> a \<and> a < 2 powi (floor_log2 a + 1)"
proof (cases "1 \<le> a")
  case True
  define k where "k = bit_length \<lfloor>a\<rfloor>"
  from True have pos: "0 < \<lfloor>a\<rfloor>" by linarith
  from bit_length_bounds [OF pos]
  have b: "2 ^ (k - 1) \<le> \<lfloor>a\<rfloor>" "\<lfloor>a\<rfloor> < 2 ^ k"
    by (simp_all add: k_def)
  have k: "0 < k"
    unfolding k_def using pos by (subst bit_length.simps) simp
  have e: "floor_log2 a = int (k - 1)"
    using True k by (simp add: floor_log2_def k_def)
  have "(2::real) ^ (k - 1) \<le> of_int \<lfloor>a\<rfloor>"
    using b(1) by (metis of_int_le_iff of_int_numeral of_int_power)
  then have lo: "(2::real) ^ (k - 1) \<le> a"
    by linarith
  have "\<lfloor>a\<rfloor> + 1 \<le> 2 ^ k"
    using b(2) by simp
  then have "(of_int (\<lfloor>a\<rfloor> + 1) :: real) \<le> 2 ^ k"
    by (metis of_int_le_iff of_int_numeral of_int_power)
  then have hi: "a < 2 ^ k"
    by simp linarith
  have "int (k - 1) + 1 = int k"
    using k by simp
  then have "(2::real) powi (int (k - 1) + 1) = 2 ^ k"
    by (simp only: power_int_of_nat)
  moreover have "(2::real) powi int (k - 1) = 2 ^ (k - 1)"
    by (rule power_int_of_nat)
  ultimately show ?thesis
    unfolding e using lo hi by simp
next
  case False
  define t where "t = 1 / a"
  define k where "k = bit_length (\<lceil>t\<rceil> - 1)"
  from False assms have t: "1 < t"
    by (simp add: t_def)
  then have pos: "0 < \<lceil>t\<rceil> - 1" by linarith
  from bit_length_bounds [OF pos]
  have b: "2 ^ (k - 1) \<le> \<lceil>t\<rceil> - 1" "\<lceil>t\<rceil> - 1 < 2 ^ k"
    by (simp_all add: k_def)
  have k: "0 < k"
    unfolding k_def using pos by (subst bit_length.simps) simp
  have e: "floor_log2 a = - int k"
    using False by (simp add: floor_log2_def k_def t_def)
  have "(2::real) ^ (k - 1) \<le> of_int (\<lceil>t\<rceil> - 1)"
    using b(1) by (metis of_int_le_iff of_int_numeral of_int_power)
  then have lo: "(2::real) ^ (k - 1) < t"
    by simp linarith
  have "\<lceil>t\<rceil> \<le> 2 ^ k"
    using b(2) by simp
  then have "(of_int \<lceil>t\<rceil> :: real) \<le> 2 ^ k"
    by (metis of_int_le_iff of_int_numeral of_int_power)
  then have hi: "t \<le> 2 ^ k"
    by linarith
  have a: "a = 1 / t"
    by (simp add: t_def)
  have "1 / 2 ^ k \<le> a"
    unfolding a using hi t by (simp add: frac_le)
  moreover have "a < 1 / 2 ^ (k - 1)"
    unfolding a using lo by (simp add: frac_less2)
  moreover have "- int k + 1 = - int (k - 1)"
    using k by simp
  then have "(2::real) powi (- int k + 1) = 1 / 2 ^ (k - 1)"
    by (simp only: power_int_minus power_int_of_nat inverse_eq_divide)
  moreover have "(2::real) powi (- int k) = 1 / 2 ^ k"
    by (simp only: power_int_minus power_int_of_nat inverse_eq_divide)
  ultimately show ?thesis
    unfolding e by simp
qed

lemma pow2_less_cancel: "(2::real) powi a < 2 powi b \<Longrightarrow> a < b"
proof (rule ccontr)
  assume l: "(2::real) powi a < 2 powi b" and "\<not> a < b"
  then have "b \<le> a" by simp
  then have "(2::real) powi b \<le> 2 powi a"
    by (intro power_int_increasing) simp_all
  with l show False by simp
qed

lemma pow2_mono: "a \<le> b \<Longrightarrow> (2::real) powi a \<le> 2 powi b"
  by (intro power_int_increasing) simp_all

lemma pow2_pos: "0 < (2::real) powi a"
  by (simp add: zero_less_power_int)

lemma pow2_add: "(2::real) powi (a + b) = 2 powi a * 2 powi b"
  by (simp add: power_int_add)

lemma pow2_add1: "(2::real) powi (a + 1) = 2 powi a * 2"
  by (simp add: pow2_add)

lemma pow2_diff: "(2::real) powi (a - b) = 2 powi a / 2 powi b"
  by (simp add: power_int_diff)




lemma binary64_exponent_le:
  assumes "x \<noteq> 0" "\<bar>x\<bar> < 2 powi (m + 1)" "- 1022 \<le> m"
  shows "binary64_exponent x \<le> m"
proof -
  have "0 < \<bar>x\<bar>" using assms(1) by simp
  from floor_log2_bounds [OF this] assms(2)
  have "2 powi floor_log2 \<bar>x\<bar> < (2::real) powi (m + 1)"
    by linarith
  then have "floor_log2 \<bar>x\<bar> < m + 1"
    by (rule pow2_less_cancel)
  with assms(3) show ?thesis
    by (simp add: binary64_exponent_def)
qed

lemma binary64_exponent_ge:
  assumes "x \<noteq> 0" "2 powi m \<le> \<bar>x\<bar>"
  shows "m \<le> binary64_exponent x"
proof -
  have "0 < \<bar>x\<bar>" using assms(1) by simp
  from floor_log2_bounds [OF this] assms(2)
  have "2 powi m < (2::real) powi (floor_log2 \<bar>x\<bar> + 1)"
    by linarith
  then have "m < floor_log2 \<bar>x\<bar> + 1"
    by (rule pow2_less_cancel)
  then show ?thesis
    by (simp add: binary64_exponent_def)
qed

lemma binary64_exponent_min: "- 1022 \<le> binary64_exponent x"
  by (simp add: binary64_exponent_def)

lemma binary64_exponent_bound:
  assumes "x \<noteq> 0"
  shows "\<bar>x\<bar> < 2 powi (binary64_exponent x + 1)"
proof -
  have "0 < \<bar>x\<bar>" using assms(1) by simp
  from floor_log2_bounds [OF this]
  have "\<bar>x\<bar> < 2 powi (floor_log2 \<bar>x\<bar> + 1)" by simp
  also have "\<dots> \<le> 2 powi (binary64_exponent x + 1)"
    by (intro pow2_mono) (simp add: binary64_exponent_def)
  finally show ?thesis .
qed

lemma binary64_exponent_mono:
  assumes "x \<noteq> 0" "\<bar>x\<bar> \<le> \<bar>y\<bar>"
  shows "binary64_exponent x \<le> binary64_exponent y"
proof -
  have x: "0 < \<bar>x\<bar>" using assms(1) by simp
  then have y: "y \<noteq> 0" using assms(2) by auto
  from floor_log2_bounds [OF x] assms(2)
  have "2 powi floor_log2 \<bar>x\<bar> \<le> \<bar>y\<bar>" by linarith
  then have "floor_log2 \<bar>x\<bar> \<le> binary64_exponent y"
    using y by (intro binary64_exponent_ge)
  then show ?thesis
    using binary64_exponent_min [of y] by (simp add: binary64_exponent_def)
qed

lemma binary64_exponent_minus: "binary64_exponent (- x) = binary64_exponent x"
  by (simp add: binary64_exponent_def)

subsection \<open>Rounding\<close>

lemma binary64_0: "binary64 0 = 0"
  by (simp add: binary64_def)

lemma binary64_minus: "binary64 (- x) = - binary64 x"
  by (simp add: binary64_def binary64_exponent_minus nearest_even_minus Let_def)


text \<open>The rounding error is at most half a unit in the last place.\<close>

lemma binary64_error:
  assumes "\<bar>x\<bar> < 2 powi (m + 1)" "- 1022 \<le> m"
  shows "\<bar>binary64 x - x\<bar> \<le> 2 powi (m - 53)"
proof (cases "x = 0")
  case True
  then show ?thesis
    using pow2_pos [of "m - 53"] by (simp add: binary64_0)
next
  case False
  define u :: real where "u = 2 powi (binary64_exponent x - 52)"
  have u: "0 < u"
    by (simp add: u_def pow2_pos)
  have "binary64 x - x = (of_int (nearest_even (x / u)) - x / u) * u"
    using False u by (simp add: binary64_def u_def [symmetric] Let_def algebra_simps)
  then have "\<bar>binary64 x - x\<bar> = \<bar>of_int (nearest_even (x / u)) - x / u\<bar> * u"
    using u by (simp add: abs_mult)
  also have "\<dots> \<le> 1 / 2 * u"
    using nearest_even_error [of "x / u"] u by (intro mult_right_mono) simp_all
  also have "1 / 2 * u = 2 powi (binary64_exponent x - 53)"
  proof -
    have "binary64_exponent x - 52 = (binary64_exponent x - 53) + 1"
      by simp
    then have "u = 2 powi (binary64_exponent x - 53) * 2"
      unfolding u_def by (simp only: pow2_add1)
    then show ?thesis by simp
  qed
  also have "\<dots> \<le> 2 powi (m - 53)"
    using binary64_exponent_le [OF False assms] by (intro pow2_mono) simp
  finally show ?thesis .
qed


lemma binary64_exponent_lower:
  assumes "x \<noteq> 0" "- 1022 < binary64_exponent x"
  shows "2 powi binary64_exponent x \<le> \<bar>x\<bar>"
proof -
  have "0 < \<bar>x\<bar>" using assms(1) by simp
  from floor_log2_bounds [OF this] assms(2) show ?thesis
    by (simp add: binary64_exponent_def max_def split: if_splits)
qed

lemma binary64_unfold:
  "x \<noteq> 0 \<Longrightarrow>
   binary64 x = of_int (nearest_even (x / 2 powi (binary64_exponent x - 52))) *
                  2 powi (binary64_exponent x - 52)"
  by (simp add: binary64_def Let_def)

lemma pow2_nat: "0 \<le> d \<Longrightarrow> (2::real) powi d = of_int (2 ^ nat d)"
  by (simp add: power_int_def)

subsection \<open>Representable numbers\<close>

text \<open>
  A number is representable when rounding leaves it unchanged. An integer of at most 53 bits
  times a power of two not below \<open>2\<^sup>-\<^sup>1\<^sup>0\<^sup>7\<^sup>4\<close> is representable.
\<close>

lemma binary64_representable_less:
  assumes n: "\<bar>n\<bar> < 2 ^ 53" and k: "- 1074 \<le> k"
  shows "binary64 (of_int n * 2 powi k) = of_int n * 2 powi k"
proof (cases "n = 0")
  case True
  then show ?thesis by (simp add: binary64_0)
next
  case False
  define x :: real where "x = of_int n * 2 powi k"
  define E where "E = binary64_exponent x"
  have x0: "x \<noteq> 0"
    using False pow2_pos [of k] by (simp add: x_def)
  have "\<bar>of_int n :: real\<bar> < 2 ^ 53"
    using n by (metis of_int_abs of_int_less_iff of_int_numeral of_int_power)
  then have "\<bar>x\<bar> < 2 ^ 53 * 2 powi k"
    unfolding x_def abs_mult using pow2_pos [of k] by simp
  also have "\<dots> = 2 powi (53 + k)"
    by (simp add: pow2_add)
  also have "\<dots> \<le> 2 powi (max (52 + k) (- 1022) + 1)"
    by (intro pow2_mono) simp
  finally have "E \<le> max (52 + k) (- 1022)"
    unfolding E_def using x0 by (intro binary64_exponent_le) simp_all
  with k have d: "0 \<le> k - (E - 52)"
    by simp
  have "x / 2 powi (E - 52) = of_int n * 2 powi (k - (E - 52))"
    by (simp add: x_def pow2_diff)
  also have "\<dots> = of_int (n * 2 ^ nat (k - (E - 52)))"
    by (simp add: pow2_nat [OF d])
  finally have q: "x / 2 powi (E - 52) = of_int (n * 2 ^ nat (k - (E - 52)))" .
  have "binary64 x = of_int (n * 2 ^ nat (k - (E - 52))) * 2 powi (E - 52)"
    unfolding binary64_unfold [OF x0] E_def [symmetric] q nearest_even_of_int ..
  also have "\<dots> = x / 2 powi (E - 52) * 2 powi (E - 52)"
    by (simp only: q)
  also have "\<dots> = x"
    using pow2_pos [of "E - 52"] by simp
  finally show ?thesis
    by (simp add: x_def)
qed

lemma binary64_representable:
  assumes n: "\<bar>n\<bar> \<le> 2 ^ 53" and k: "- 1074 \<le> k"
  shows "binary64 (of_int n * 2 powi k) = of_int n * 2 powi k"
proof (cases "\<bar>n\<bar> < 2 ^ 53")
  case True
  then show ?thesis using k by (rule binary64_representable_less)
next
  case False
  with n have "\<bar>n\<bar> = 2 ^ 53" by simp
  then have "n = 2 ^ 53 \<or> n = - (2 ^ 53)"
    by linarith
  then have "n = 2 * (n div 2)" "\<bar>n div 2\<bar> < 2 ^ 53"
    by auto
  moreover have "of_int (2 * (n div 2)) * 2 powi k = of_int (n div 2) * (2::real) powi (k + 1)"
    by (simp add: pow2_add1)
  moreover have "binary64 (of_int (n div 2) * 2 powi (k + 1)) = of_int (n div 2) * 2 powi (k + 1)"
    using calculation(2) k by (intro binary64_representable_less) simp_all
  ultimately show ?thesis by metis
qed

lemma binary64_int:
  assumes "\<bar>n\<bar> \<le> 2 ^ 53"
  shows "binary64 (of_int n) = of_int n"
  using binary64_representable [OF assms, of 0] by simp

lemma binary64_idem: "binary64 (binary64 x) = binary64 x"
proof (cases "x = 0")
  case True
  then show ?thesis by (simp add: binary64_0)
next
  case False
  define E where "E = binary64_exponent x"
  define u :: real where "u = 2 powi (E - 52)"
  have u: "0 < u" by (simp add: u_def pow2_pos)
  have "\<bar>x\<bar> < 2 powi (E + 1)"
    unfolding E_def by (rule binary64_exponent_bound [OF False])
  also have "\<dots> = 2 ^ 53 * u"
    unfolding u_def by (simp add: pow2_diff pow2_add)
  finally have a: "\<bar>x / u\<bar> \<le> of_int (2 ^ 53)"
    using u by (simp add: pos_divide_le_eq)
  have "x / u \<le> of_int (2 ^ 53)"
    by (rule abs_le_D1 [OF a])
  then have hi: "nearest_even (x / u) \<le> 2 ^ 53"
    by (rule nearest_even_le_int)
  have "- (x / u) \<le> of_int (2 ^ 53)"
    by (rule abs_le_D2 [OF a])
  then have "of_int (- (2 ^ 53)) \<le> x / u"
    by simp
  then have "- (2 ^ 53) \<le> nearest_even (x / u)"
    by (rule nearest_even_ge_int)
  with hi have "nearest_even (x / u) \<le> 2 ^ 53" "- (2 ^ 53) \<le> nearest_even (x / u)"
    by simp_all
  then have "\<bar>nearest_even (x / u)\<bar> \<le> 2 ^ 53"
    by simp
  moreover have "- 1074 \<le> E - 52"
    using binary64_exponent_min [of x] by (simp add: E_def)
  ultimately have "binary64 (of_int (nearest_even (x / u)) * 2 powi (E - 52)) =
      of_int (nearest_even (x / u)) * 2 powi (E - 52)"
    by (rule binary64_representable)
  then show ?thesis
    unfolding binary64_unfold [OF False] E_def [symmetric] u_def [symmetric] .
qed


lemma div_of_mult: "c = a * u \<Longrightarrow> 0 < u \<Longrightarrow> c / u = (a::real)"
  by simp

text \<open>Rounding never steps over a representable number.\<close>

lemma binary64_le_representable:
  assumes c: "binary64 c = c" and xc: "x \<le> c"
  shows "binary64 x \<le> c"
proof -
  define ux :: real where "ux = 2 powi (binary64_exponent x - 52)"
  define uc :: real where "uc = 2 powi (binary64_exponent c - 52)"
  define Nc where "Nc = nearest_even (c / uc)"
  have ux: "0 < ux" and uc: "0 < uc"
    by (simp_all add: ux_def uc_def pow2_pos)
  have bx: "binary64 x = of_int (nearest_even (x / ux)) * ux" if "x \<noteq> 0"
    unfolding ux_def by (rule binary64_unfold [OF that])
  have cN: "c = of_int Nc * uc" if "c \<noteq> 0"
    using binary64_unfold [OF that] c by (simp add: Nc_def uc_def)
  consider "x = 0" | "x < 0" "0 \<le> c" | "0 < x" | "x < 0" "c < 0"
    by linarith
  then show ?thesis
  proof cases
    case 1
    with xc show ?thesis by (simp add: binary64_0)
  next
    case 2
    then have "x / ux \<le> of_int 0"
      using ux by (simp add: divide_le_0_iff)
    then have "nearest_even (x / ux) \<le> 0"
      by (rule nearest_even_le_int)
    then have "of_int (nearest_even (x / ux)) * ux \<le> 0"
      using ux by (simp add: mult_le_0_iff)
    with 2 bx show ?thesis by simp
  next
    case 3
    with xc have c0: "c \<noteq> 0" and x0: "x \<noteq> 0" and "\<bar>x\<bar> \<le> \<bar>c\<bar>"
      by simp_all
    then have d: "0 \<le> binary64_exponent c - binary64_exponent x"
      using binary64_exponent_mono [of x c] by simp
    have "uc = ux * 2 powi (binary64_exponent c - binary64_exponent x)"
      unfolding uc_def ux_def pow2_add [symmetric] by simp
    then have "uc = ux * of_int (2 ^ nat (binary64_exponent c - binary64_exponent x))"
      by (simp only: pow2_nat [OF d])
    with cN [OF c0] have cM:
      "c = of_int (Nc * 2 ^ nat (binary64_exponent c - binary64_exponent x)) * ux"
      by (simp add: mult_ac)
    then have "c / ux = of_int (Nc * 2 ^ nat (binary64_exponent c - binary64_exponent x))"
      using ux by (rule div_of_mult)
    moreover have "x / ux \<le> c / ux"
      using xc ux by (simp add: divide_right_mono)
    ultimately have "nearest_even (x / ux) \<le>
        Nc * 2 ^ nat (binary64_exponent c - binary64_exponent x)"
      by (intro nearest_even_le_int) simp
    then have "(of_int (nearest_even (x / ux)) :: real) \<le>
        of_int (Nc * 2 ^ nat (binary64_exponent c - binary64_exponent x))"
      by (simp only: of_int_le_iff)
    then have "of_int (nearest_even (x / ux)) * ux \<le>
        of_int (Nc * 2 ^ nat (binary64_exponent c - binary64_exponent x)) * ux"
      using ux by (intro mult_right_mono) simp_all
    with bx [OF x0] cM show ?thesis by simp
  next
    case 4
    with xc have c0: "c \<noteq> 0" and x0: "x \<noteq> 0" and m: "\<bar>c\<bar> \<le> \<bar>x\<bar>"
      by simp_all
    have le: "binary64_exponent c \<le> binary64_exponent x"
      using binary64_exponent_mono [OF c0 m] .
    show ?thesis
    proof (cases "binary64_exponent c = binary64_exponent x")
      case True
      then have "uc = ux" by (simp add: uc_def ux_def)
      with cN [OF c0] have cM: "c = of_int Nc * ux" by simp
      then have "c / ux = of_int Nc"
        using ux by (rule div_of_mult)
      moreover have "x / ux \<le> c / ux"
        using xc ux by (simp add: divide_right_mono)
      ultimately have "nearest_even (x / ux) \<le> Nc"
        by (intro nearest_even_le_int) simp
      then have "(of_int (nearest_even (x / ux)) :: real) \<le> of_int Nc"
        by (simp only: of_int_le_iff)
      then have "of_int (nearest_even (x / ux)) * ux \<le> of_int Nc * ux"
        using ux by (intro mult_right_mono) simp_all
      with bx [OF x0] cM show ?thesis by simp
    next
      case False
      with le have lt: "binary64_exponent c + 1 \<le> binary64_exponent x"
        by simp
      then have "- 1022 < binary64_exponent x"
        using binary64_exponent_min [of c] by simp
      from binary64_exponent_lower [OF x0 this] 4
      have xl: "x \<le> - (2 powi binary64_exponent x)"
        by simp
      have "\<bar>c\<bar> < 2 powi (binary64_exponent c + 1)"
        by (rule binary64_exponent_bound [OF c0])
      also have "\<dots> \<le> 2 powi binary64_exponent x"
        using lt by (rule pow2_mono)
      finally have cl: "- (2 powi binary64_exponent x) < c"
        using 4 by simp
      have e: "2 powi binary64_exponent x = of_int (2 ^ 52) * ux"
        unfolding ux_def by (simp add: pow2_diff)
      then have "x / ux \<le> of_int (- (2 ^ 52))"
        using xl ux by (simp add: pos_divide_le_eq)
      then have "nearest_even (x / ux) \<le> - (2 ^ 52)"
        by (rule nearest_even_le_int)
      then have "(of_int (nearest_even (x / ux)) :: real) \<le> of_int (- (2 ^ 52))"
        by (simp only: of_int_le_iff)
      then have "of_int (nearest_even (x / ux)) * ux \<le> of_int (- (2 ^ 52)) * ux"
        using ux by (intro mult_right_mono) simp_all
      also have "\<dots> = - (2 powi binary64_exponent x)"
        using e by simp
      finally show ?thesis
        using bx [OF x0] cl by simp
    qed
  qed
qed

lemma binary64_ge_representable:
  assumes c: "binary64 c = c" and xc: "c \<le> x"
  shows "c \<le> binary64 x"
proof -
  have "binary64 (- c) = - c"
    using c by (simp add: binary64_minus)
  moreover have "- x \<le> - c"
    using xc by simp
  ultimately have "binary64 (- x) \<le> - c"
    by (rule binary64_le_representable)
  then show ?thesis
    by (simp add: binary64_minus)
qed



section \<open>The frame update in binary64\<close>










section \<open>Obstacle spacing in binary64\<close>

lemma Rep_rand64_range:
  "0 \<le> Rep_rand64 r \<and> Rep_rand64 r < 1 \<and> binary64 (Rep_rand64 r) = Rep_rand64 r"
  using Rep_rand64 [of r] by simp

lemma Math_random64_range: "0 \<le> fst (Math_random64 g) \<and> fst (Math_random64 g) < 1"
  by (simp add: Math_random64_def Rep_rand64_range)

lemma spacing64_range:
  assumes "0 \<le> r" "r < 1"
  shows "300 \<le> add64 300 (mul64 r (sub64 500 300)) \<and>
         add64 300 (mul64 r (sub64 500 300)) \<le> 500"
proof -
  have c: "binary64 0 = 0" "binary64 200 = 200" "binary64 300 = 300" "binary64 500 = 500"
    by (simp_all add: binary64_eval)
  have s: "sub64 500 300 = 200"
    by (simp add: sub64_def c)
  have "0 \<le> r * 200" "r * 200 \<le> 200"
    using assms by simp_all
  then have "0 \<le> binary64 (r * 200)" "binary64 (r * 200) \<le> 200"
    using c by (auto intro: binary64_ge_representable binary64_le_representable)
  then have "300 \<le> 300 + mul64 r 200" "300 + mul64 r 200 \<le> 500"
    by (simp_all add: mul64_def)
  then have "300 \<le> binary64 (300 + mul64 r 200)" "binary64 (300 + mul64 r 200) \<le> 500"
    using c by (auto intro: binary64_ge_representable binary64_le_representable)
  then show ?thesis
    by (simp add: s add64_def)
qed

lemma generateObstacle64_obstacles:
  "\<exists>ob. obstacles (fst (generateObstacle64 cfg speed dst G g)) = obstacles G @ [ob] \<and>
     x_o ob = (if obstacles G \<noteq> []
               then add64 (x_o (last (obstacles G)))
                      (add64 300 (mul64 (fst (Math_random64 g)) (sub64 500 300)))
               else add64 (CANVAS_WIDTH cfg) 200)"
  by (simp add: generateObstacle64_def Let_def split: prod.splits)

lemma ObstacleGenerator_update64_two:
  assumes G: "obstacles G = [o1, o2]"
    and k1: "add64 (sub64 (x_o o1) s) (width_o o1) > - 100"
    and k2: "add64 (sub64 (x_o o2) s) (width_o o2) > - 100"
    and v: "sub64 (x_o o2) s < CANVAS_WIDTH cfg"
  shows "map x_o (obstacles (fst (ObstacleGenerator_update64 cfg s d G g))) =
     [sub64 (x_o o1) s, sub64 (x_o o2) s,
      add64 (sub64 (x_o o2) s) (add64 300 (mul64 (fst (Math_random64 g)) (sub64 500 300)))]"
proof -
  let ?G2 = "G\<lparr>obstacles := [o1\<lparr>x_o := sub64 (x_o o1) s\<rparr>, o2\<lparr>x_o := sub64 (x_o o2) s\<rparr>]\<rparr>"
  have u: "ObstacleGenerator_update64 cfg s d G g = generateObstacle64 cfg s d ?G2 g"
    using G k1 k2 v by (simp add: ObstacleGenerator_update64_def Let_def)
  obtain ob where ob: "obstacles (fst (generateObstacle64 cfg s d ?G2 g)) = obstacles ?G2 @ [ob]"
    and x: "x_o ob = (if obstacles ?G2 \<noteq> []
               then add64 (x_o (last (obstacles ?G2)))
                      (add64 300 (mul64 (fst (Math_random64 g)) (sub64 500 300)))
               else add64 (CANVAS_WIDTH cfg) 200)"
    using generateObstacle64_obstacles by blast
  show ?thesis
    unfolding u ob using x by simp
qed

text \<open>
  A spawn less than 300 to the right of the last obstacle. The 100th frame of the game
  described at \<open>frame99\<close> moves the second spike to \<open>7036148793284649 / 2\<^sup>4\<^sup>3\<close>, left of the
  canvas width, and spawns a third obstacle at that position plus the spacing 300. The exact
  sum lies halfway between two binary64 numbers and is rounded down, by \<open>2\<^sup>-\<^sup>4\<^sup>3\<close>: JavaScript
  prints the two positions as \<^verbatim>\<open>799.9175060472963\<close> and \<^verbatim>\<open>1099.9175060472962\<close>.
\<close>

theorem obstacle_spawn_counterexample:
  "length (obstacles (fst (ObstacleGenerator_update64 cfg0 (2871605741790533 / 2 ^ 49)
       (3553498417748297 / 2 ^ 46) frame99 (\<lambda>_. rand64_zero)))) = 3 \<and>
   x_o (obstacles (fst (ObstacleGenerator_update64 cfg0 (2871605741790533 / 2 ^ 49)
       (3553498417748297 / 2 ^ 46) frame99 (\<lambda>_. rand64_zero))) ! 2) <
   x_o (obstacles (fst (ObstacleGenerator_update64 cfg0 (2871605741790533 / 2 ^ 49)
       (3553498417748297 / 2 ^ 46) frame99 (\<lambda>_. rand64_zero))) ! 1) + 300"
proof -
  define o1 where "o1 = spike_at (8884379452675461 / 2 ^ 44)"
  define o2 where "o2 = spike_at (3540508816500063 / 2 ^ 42)"
  define s :: real where "s = 2871605741790533 / 2 ^ 49"
  let ?G' = "fst (ObstacleGenerator_update64 cfg0 s (3553498417748297 / 2 ^ 46) frame99
      (\<lambda>_. rand64_zero))"
  have G: "obstacles frame99 = [o1, o2]"
    by (simp add: frame99_def o1_def o2_def)
  have a: "sub64 (x_o o1) s = 8794641773244507 / 2 ^ 44"
    by (simp add: o1_def s_def spike_at_def sub64_def binary64_eval)
  have b: "sub64 (x_o o2) s = 7036148793284649 / 2 ^ 43"
    by (simp add: o2_def s_def spike_at_def sub64_def binary64_eval)
  have k1: "add64 (sub64 (x_o o1) s) (width_o o1) > - 100"
    unfolding a by (simp add: o1_def spike_at_def add64_def binary64_eval)
  have k2: "add64 (sub64 (x_o o2) s) (width_o o2) > - 100"
    unfolding b by (simp add: o2_def spike_at_def add64_def binary64_eval)
  have v: "sub64 (x_o o2) s < CANVAS_WIDTH cfg0"
    unfolding b by (simp add: cfg0_def)
  have r: "fst (Math_random64 (\<lambda>_. rand64_zero)) = 0"
    by (simp add: Math_random64_def rand64_zero.rep_eq)
  have c: "add64 (sub64 (x_o o2) s) (add64 300 (mul64 0 (sub64 500 300))) =
      1209372087493381 / 2 ^ 40"
    unfolding b by (simp add: add64_def mul64_def sub64_def binary64_eval)
  have m0: "map x_o (obstacles ?G') =
      [sub64 (x_o o1) s, sub64 (x_o o2) s,
       add64 (sub64 (x_o o2) s) (add64 300 (mul64 0 (sub64 500 300)))]"
    by (simp only: ObstacleGenerator_update64_two [OF G k1 k2 v] r)
  have m: "map x_o (obstacles ?G') =
      [8794641773244507 / 2 ^ 44, 7036148793284649 / 2 ^ 43, 1209372087493381 / 2 ^ 40]"
    by (simp only: m0 c, simp only: a b)
  have l: "length (obstacles ?G') = 3"
    using arg_cong [OF m, of length] by simp
  have "x_o (obstacles ?G' ! 1) = map x_o (obstacles ?G') ! 1"
    "x_o (obstacles ?G' ! 2) = map x_o (obstacles ?G') ! 2"
    using l by simp_all
  then have "x_o (obstacles ?G' ! 1) = 7036148793284649 / 2 ^ 43"
    "x_o (obstacles ?G' ! 2) = 1209372087493381 / 2 ^ 40"
    unfolding m by simp_all
  with l show ?thesis
    unfolding s_def by simp
qed


lemma ObstacleGenerator_update64_kept:
  "ObstacleGenerator_update64 cfg speed dst G g =
     (if kept64 speed G = [] \<or> x_o (last (kept64 speed G)) < CANVAS_WIDTH cfg
      then generateObstacle64 cfg speed dst (G\<lparr>obstacles := kept64 speed G\<rparr>) g
      else (G\<lparr>obstacles := kept64 speed G\<rparr>, g))"
  by (simp add: ObstacleGenerator_update64_def kept64_def Let_def)

lemma add64_error:
  assumes "- 1022 \<le> m" "\<bar>a + b\<bar> < 2 powi (m + 1)"
  shows "\<bar>add64 a b - (a + b)\<bar> \<le> 2 powi (m - 53)"
  using binary64_error [of "a + b" m] assms by (simp add: add64_def)

lemma frame99_kept64:
  "kept64 (2871605741790533 / 2 ^ 49) frame99 =
     [spike_at (8794641773244507 / 2 ^ 44), spike_at (7036148793284649 / 2 ^ 43)]"
proof -
  define x1 :: real where "x1 = 8884379452675461 / 2 ^ 44"
  define x2 :: real where "x2 = 3540508816500063 / 2 ^ 42"
  define z1 :: real where "z1 = 8794641773244507 / 2 ^ 44"
  define z2 :: real where "z2 = 7036148793284649 / 2 ^ 43"
  define s :: real where "s = 2871605741790533 / 2 ^ 49"
  have a: "sub64 x1 s = z1"
    by (simp add: x1_def s_def z1_def sub64_def binary64_eval)
  have b: "sub64 x2 s = z2"
    by (simp add: x2_def s_def z2_def sub64_def binary64_eval)
  have k1: "add64 z1 40 > - 100"
    by (simp add: z1_def add64_def binary64_eval)
  have k2: "add64 z2 40 > - 100"
    by (simp add: z2_def add64_def binary64_eval)
  have "kept64 s \<lparr>obstacles = [spike_at x1, spike_at x2], nextObstacleX = x2\<rparr> =
      [spike_at z1, spike_at z2]"
    using k1 k2 by (simp add: kept64_def spike_at_def a b)
  then show ?thesis
    unfolding frame99_def x1_def x2_def z1_def z2_def s_def .
qed

text \<open>
  Claim C1, as the code has it. One call of \<^verbatim>\<open>update\<close> moves every obstacle left by the game
  speed and drops those that have left the screen; \<open>kept64 speed G\<close> are the obstacles that
  remain. If none remains, one obstacle is spawned at \<^verbatim>\<open>CANVAS_WIDTH + 200\<close>. If the last one
  that remains is left of the canvas width, one obstacle is spawned at the binary64 sum of
  that obstacle's current position and the spacing; the spacing is a binary64 number from 300
  to 500, and the sum differs from the exact sum by at most half a unit in the last place, so
  the new obstacle is at least 300 less that half unit to the right of the last one. Otherwise
  nothing is spawned.
\<close>

theorem obstacle_spawn_spacing_binary64:
  "300 \<le> distanceFromLast64 g \<and> distanceFromLast64 g \<le> 500 \<and>
   (if kept64 speed G = []
    then \<exists>ob. obstacles (fst (ObstacleGenerator_update64 cfg speed dst G g)) = [ob] \<and>
           x_o ob = add64 (CANVAS_WIDTH cfg) 200
    else if x_o (last (kept64 speed G)) < CANVAS_WIDTH cfg
    then \<exists>ob. obstacles (fst (ObstacleGenerator_update64 cfg speed dst G g)) =
             kept64 speed G @ [ob] \<and>
           x_o ob = add64 (x_o (last (kept64 speed G))) (distanceFromLast64 g) \<and>
           (\<forall>m. - 1022 \<le> m \<and>
                \<bar>x_o (last (kept64 speed G)) + distanceFromLast64 g\<bar> < 2 powi (m + 1) \<longrightarrow>
                x_o (last (kept64 speed G)) + 300 - 2 powi (m - 53) \<le> x_o ob \<and>
                x_o ob \<le> x_o (last (kept64 speed G)) + 500 + 2 powi (m - 53))
    else obstacles (fst (ObstacleGenerator_update64 cfg speed dst G g)) = kept64 speed G)"
proof -
  let ?ks = "kept64 speed G"
  let ?d = "distanceFromLast64 g"
  let ?G2 = "G\<lparr>obstacles := ?ks\<rparr>"
  have d: "300 \<le> ?d \<and> ?d \<le> 500"
    unfolding distanceFromLast64_def
    using Math_random64_range [of g] by (intro spacing64_range) simp_all
  obtain ob where ob: "obstacles (fst (generateObstacle64 cfg speed dst ?G2 g)) =
      obstacles ?G2 @ [ob]"
    and x: "x_o ob = (if obstacles ?G2 \<noteq> []
               then add64 (x_o (last (obstacles ?G2)))
                      (add64 300 (mul64 (fst (Math_random64 g)) (sub64 500 300)))
               else add64 (CANVAS_WIDTH cfg) 200)"
    using generateObstacle64_obstacles by blast
  show ?thesis
  proof (cases "?ks = []")
    case True
    then show ?thesis
      using d ob x by (simp add: ObstacleGenerator_update64_kept)
  next
    case ne: False
    show ?thesis
    proof (cases "x_o (last ?ks) < CANVAS_WIDTH cfg")
      case True
      have x': "x_o ob = add64 (x_o (last ?ks)) ?d"
        using x ne by (simp add: distanceFromLast64_def)
      have e: "x_o (last ?ks) + 300 - 2 powi (m - 53) \<le> x_o ob \<and>
          x_o ob \<le> x_o (last ?ks) + 500 + 2 powi (m - 53)"
        if "- 1022 \<le> m" "\<bar>x_o (last ?ks) + ?d\<bar> < 2 powi (m + 1)" for m
        using add64_error [OF that] d unfolding x' by linarith
      have "obstacles (fst (ObstacleGenerator_update64 cfg speed dst G g)) = ?ks @ [ob]"
        using ob ne True by (simp add: ObstacleGenerator_update64_kept)
      with x' e d ne True show ?thesis
        by auto
    next
      case False
      with d ne show ?thesis
        by (simp add: ObstacleGenerator_update64_kept)
    qed
  qed
qed

theorem obstacle_spawn_spacing_binary64_witness:
  "kept64 (2871605741790533 / 2 ^ 49) frame99 \<noteq> [] \<and>
   x_o (last (kept64 (2871605741790533 / 2 ^ 49) frame99)) < CANVAS_WIDTH cfg0 \<and>
   \<bar>x_o (last (kept64 (2871605741790533 / 2 ^ 49) frame99)) + distanceFromLast64 (\<lambda>_. rand64_zero)\<bar>
     < 2 powi (10 + 1) \<and>
   (\<exists>ob. obstacles (fst (ObstacleGenerator_update64 cfg0 (2871605741790533 / 2 ^ 49)
            (3553498417748297 / 2 ^ 46) frame99 (\<lambda>_. rand64_zero))) =
          kept64 (2871605741790533 / 2 ^ 49) frame99 @ [ob] \<and>
        7036148793284649 / 2 ^ 43 + 300 - 2 powi (10 - 53) \<le> x_o ob \<and>
        x_o ob \<le> 7036148793284649 / 2 ^ 43 + 500 + 2 powi (10 - 53))"
proof -
  have l: "x_o (last (kept64 (2871605741790533 / 2 ^ 49) frame99)) = 7036148793284649 / 2 ^ 43"
    unfolding frame99_kept64 by (simp add: spike_at_def)
  have ne: "kept64 (2871605741790533 / 2 ^ 49) frame99 \<noteq> []"
    unfolding frame99_kept64 by simp
  have d: "distanceFromLast64 (\<lambda>_. rand64_zero) = 300"
    by (simp add: distanceFromLast64_def Math_random64_def rand64_zero.rep_eq add64_def
        mul64_def sub64_def binary64_eval)
  have w: "x_o (last (kept64 (2871605741790533 / 2 ^ 49) frame99)) < CANVAS_WIDTH cfg0"
    unfolding l by (simp add: cfg0_def)
  have b: "\<bar>x_o (last (kept64 (2871605741790533 / 2 ^ 49) frame99)) +
      distanceFromLast64 (\<lambda>_. rand64_zero)\<bar> < 2 powi (10 + 1)"
    unfolding l d by simp
  from obstacle_spawn_spacing_binary64 [of "\<lambda>_. rand64_zero" "2871605741790533 / 2 ^ 49"
      frame99 cfg0 "3553498417748297 / 2 ^ 46"] ne w
  obtain ob where "obstacles (fst (ObstacleGenerator_update64 cfg0 (2871605741790533 / 2 ^ 49)
            (3553498417748297 / 2 ^ 46) frame99 (\<lambda>_. rand64_zero))) =
          kept64 (2871605741790533 / 2 ^ 49) frame99 @ [ob]"
    and "\<forall>m. - 1022 \<le> m \<and>
        \<bar>x_o (last (kept64 (2871605741790533 / 2 ^ 49) frame99)) +
           distanceFromLast64 (\<lambda>_. rand64_zero)\<bar> < 2 powi (m + 1) \<longrightarrow>
        x_o (last (kept64 (2871605741790533 / 2 ^ 49) frame99)) + 300 - 2 powi (m - 53) \<le> x_o ob \<and>
        x_o ob \<le> x_o (last (kept64 (2871605741790533 / 2 ^ 49) frame99)) + 500 + 2 powi (m - 53)"
    by auto
  from this(1) this(2) [rule_format, of 10] b ne w show ?thesis
    unfolding l by (intro conjI exI [of _ ob]) simp_all
qed

section \<open>Player: flight in binary64\<close>

lemma Player_updates64_0: "Player_updates64 cfg 0 p = p"
  by (simp add: Player_updates64_def)

lemma Player_updates64_Suc:
  "Player_updates64 cfg (Suc n) p = fst (Player_update64 cfg (Player_updates64 cfg n p))"
  by (simp add: Player_updates64_def)

lemma clampFires64_phys:
  "clampFires64 cfg p =
     (sub64 (CANVAS_HEIGHT cfg) GROUND_HEIGHT \<le>
        add64 (add64 (y_pl p) (add64 (velocityY p) GRAVITY64)) (height_pl p) \<or>
      add64 (y_pl p) (add64 (velocityY p) GRAVITY64) \<le> 0)"
  by (auto simp: clampFires64_def hitsGround64_def hitsCeiling_def Player_ground64_def
      Player_integrate64_def Let_def)

lemma Player_update64_no_clamp:
  assumes "\<not> clampFires64 cfg p"
  shows "velocityY (fst (Player_update64 cfg p)) = add64 (velocityY p) GRAVITY64"
    and "y_pl (fst (Player_update64 cfg p)) =
           add64 (y_pl p) (add64 (velocityY p) GRAVITY64)"
    and "height_pl (fst (Player_update64 cfg p)) = height_pl p"
    and "\<not> onGround (fst (Player_update64 cfg p))"
proof -
  let ?q = "Player_integrate64 p"
  from assms have a: "\<not> hitsGround64 cfg ?q" and b: "\<not> hitsCeiling (Player_ground64 cfg ?q)"
    by (simp_all add: clampFires64_def)
  have g: "Player_ground64 cfg ?q =
      ?q\<lparr>onGround := False, rotation := add64 (rotation ?q) (binary64 0.15)\<rparr>"
    using a by (simp add: Player_ground64_def)
  have c: "Player_ceiling (Player_ground64 cfg ?q) = Player_ground64 cfg ?q"
    using b by (simp add: Player_ceiling_def)
  have u: "fst (Player_update64 cfg p) =
      (Player_ground64 cfg ?q)\<lparr>trail := trail (fst (Player_update64 cfg p))\<rparr>"
    by (simp add: Player_update64_def Let_def c)
  show "velocityY (fst (Player_update64 cfg p)) = add64 (velocityY p) GRAVITY64"
    by (subst u, subst g) (simp add: Player_integrate64_def Let_def)
  show "y_pl (fst (Player_update64 cfg p)) = add64 (y_pl p) (add64 (velocityY p) GRAVITY64)"
    by (subst u, subst g) (simp add: Player_integrate64_def Let_def)
  show "height_pl (fst (Player_update64 cfg p)) = height_pl p"
    by (subst u, subst g) (simp add: Player_integrate64_def Let_def)
  show "\<not> onGround (fst (Player_update64 cfg p))"
    by (subst u, subst g) simp
qed

lemma Player_update64_lands:
  assumes g: "hitsGround64 cfg (Player_integrate64 p)"
    and c: "0 < sub64 (sub64 (CANVAS_HEIGHT cfg) GROUND_HEIGHT) (height_pl p)"
  shows "onGround (fst (Player_update64 cfg p))"
    and "rotation (fst (Player_update64 cfg p)) = 0"
    and "velocityY (fst (Player_update64 cfg p)) = 0"
    and "y_pl (fst (Player_update64 cfg p)) =
           sub64 (sub64 (CANVAS_HEIGHT cfg) GROUND_HEIGHT) (height_pl p)"
    and "height_pl (fst (Player_update64 cfg p)) = height_pl p"
proof -
  let ?q = "Player_integrate64 p"
  have h: "height_pl ?q = height_pl p"
    by (simp add: Player_integrate64_def Let_def)
  have gr: "Player_ground64 cfg ?q =
      ?q\<lparr>y_pl := sub64 (sub64 (CANVAS_HEIGHT cfg) GROUND_HEIGHT) (height_pl p), velocityY := 0,
         onGround := True, rotation := 0\<rparr>"
    using g by (simp add: Player_ground64_def h Let_def)
  have "\<not> hitsCeiling (Player_ground64 cfg ?q)"
    unfolding gr using c by (simp add: hitsCeiling_def)
  then have ce: "Player_ceiling (Player_ground64 cfg ?q) = Player_ground64 cfg ?q"
    by (simp add: Player_ceiling_def)
  have u: "fst (Player_update64 cfg p) =
      (Player_ground64 cfg ?q)\<lparr>trail := trail (fst (Player_update64 cfg p))\<rparr>"
    by (simp add: Player_update64_def Let_def ce)
  show "onGround (fst (Player_update64 cfg p))"
    by (subst u, subst gr) simp
  show "rotation (fst (Player_update64 cfg p)) = 0"
    by (subst u, subst gr) simp
  show "velocityY (fst (Player_update64 cfg p)) = 0"
    by (subst u, subst gr) simp
  show "y_pl (fst (Player_update64 cfg p)) =
      sub64 (sub64 (CANVAS_HEIGHT cfg) GROUND_HEIGHT) (height_pl p)"
    by (subst u, subst gr) simp
  show "height_pl (fst (Player_update64 cfg p)) = height_pl p"
    by (subst u, subst gr) (simp add: h)
qed

text \<open>The gravity constant of the program is the binary64 number nearest to 0.8.\<close>

lemma GRAVITY64_value: "GRAVITY64 = 3602879701896397 / 2 ^ 52"
  by (simp add: GRAVITY64_def binary64_eval)

lemma GRAVITY64_near: "\<bar>GRAVITY64 - 4 / 5\<bar> \<le> 1 / 2 ^ 54" "0 < GRAVITY64" "GRAVITY64 \<noteq> GRAVITY"
  by (simp_all add: GRAVITY64_value GRAVITY_def)

text \<open>While no branch clamps, every update replaces the velocity by its rounded sum with gravity.\<close>

lemma velocity64_iter:
  assumes "\<forall>k<n. \<not> clampFires64 cfg (Player_updates64 cfg k p)"
  shows "velocityY (Player_updates64 cfg n p) = ((\<lambda>v. add64 v GRAVITY64) ^^ n) (velocityY p)"
  using assms
proof (induction n)
  case 0
  show ?case by (simp add: Player_updates64_0)
next
  case (Suc n)
  from Suc.prems have "\<not> clampFires64 cfg (Player_updates64 cfg n p)"
    by simp
  then have "velocityY (Player_updates64 cfg (Suc n) p) =
      add64 (velocityY (Player_updates64 cfg n p)) GRAVITY64"
    unfolding Player_updates64_Suc by (rule Player_update64_no_clamp(1))
  moreover have "velocityY (Player_updates64 cfg n p) =
      ((\<lambda>v. add64 v GRAVITY64) ^^ n) (velocityY p)"
    using Suc.prems by (intro Suc.IH) simp
  ultimately show ?case
    by simp
qed

lemma add64_GRAVITY64_error:
  assumes v: "\<bar>v - w\<bar> \<le> d" and w: "\<bar>w + 4 / 5\<bar> \<le> 15" and d: "d \<le> 1 / 2"
  shows "\<bar>add64 v GRAVITY64 - (w + 4 / 5)\<bar> \<le> d + 1 / 2 ^ 49"
proof -
  note g = GRAVITY64_near(1)
  have "\<bar>v + GRAVITY64\<bar> < 16"
    using v w d g unfolding abs_le_iff abs_less_iff by simp
  then have "\<bar>v + GRAVITY64\<bar> < 2 powi (3 + 1)"
    by simp
  then have "\<bar>binary64 (v + GRAVITY64) - (v + GRAVITY64)\<bar> \<le> 2 powi (3 - 53)"
    by (rule binary64_error) simp
  then have "\<bar>add64 v GRAVITY64 - (v + GRAVITY64)\<bar> \<le> 1 / 2 ^ 50"
    by (simp add: add64_def power_int_minus inverse_eq_divide)
  with v g show ?thesis
    unfolding abs_le_iff by simp
qed

lemma velocity64_error:
  assumes "\<bar>v0\<bar> \<le> 15" "\<bar>v0 + real n * GRAVITY\<bar> \<le> 15"
  shows "\<bar>((\<lambda>v. add64 v GRAVITY64) ^^ n) v0 - (v0 + real n * GRAVITY)\<bar> \<le> real n / 2 ^ 49"
  using assms
proof (induction n)
  case 0
  show ?case by simp
next
  case (Suc n)
  let ?v = "((\<lambda>v. add64 v GRAVITY64) ^^ n) v0"
  let ?w = "v0 + real n * GRAVITY"
  have e: "real (Suc n) * GRAVITY = real n * GRAVITY + 4 / 5"
    by (simp add: GRAVITY_def algebra_simps)
  have g: "0 \<le> real n * GRAVITY" "real n * GRAVITY = real n * (4 / 5)"
    by (simp_all add: GRAVITY_def)
  from Suc.prems have b: "\<bar>?w\<bar> \<le> 15"
    using g(1) unfolding e abs_le_iff by linarith
  from Suc.prems have "real n \<le> 37"
    using g unfolding e abs_le_iff by linarith
  then have d: "real n / 2 ^ 49 \<le> 1 / 2"
    by simp
  have w: "\<bar>?w + 4 / 5\<bar> \<le> 15"
    using Suc.prems(2) unfolding e by (simp add: add.assoc)
  have "\<bar>?v - ?w\<bar> \<le> real n / 2 ^ 49"
    using Suc.prems(1) b by (rule Suc.IH)
  from add64_GRAVITY64_error [OF this w d]
  have "\<bar>add64 ?v GRAVITY64 - (?w + 4 / 5)\<bar> \<le> real n / 2 ^ 49 + 1 / 2 ^ 49" .
  moreover have "real n / 2 ^ 49 + 1 / 2 ^ 49 = real (Suc n) / 2 ^ 49"
    by (simp add: add_divide_distrib)
  moreover have "?w + 4 / 5 = v0 + real (Suc n) * GRAVITY"
    unfolding e by simp
  ultimately show ?case
    by simp
qed

lemma arc_Suc: "arc (Suc k) = arc k + (- 15 + 4 / 5 * real (Suc k))"
  by (simp add: arc_def field_simps)

lemma arc_0: "arc 0 = 0"
  by (simp add: arc_def)

lemma arc_below_start:
  assumes "1 \<le> k" and "k \<le> 36"
  shows "arc k \<le> - 7.2"
proof -
  have "real k - 36 \<le> 0" "0 \<le> real k - 1 / 2"
    using assms by simp_all
  then have "(real k - 36) * (real k - 1 / 2) \<le> 0"
    by (rule mult_nonpos_nonneg)
  moreover have "arc k + 7.2 = 0.4 * ((real k - 36) * (real k - 1 / 2))"
    by (simp add: arc_def field_simps)
  ultimately show ?thesis by simp
qed

lemma arc_above_peak: "- 133.2 \<le> arc k"
proof -
  have nonneg: "0 \<le> (real k - 18) * (real k - 18.5)"
  proof (cases "k \<le> 18")
    case True
    then have "real k - 18 \<le> 0" "real k - 18.5 \<le> 0" by simp_all
    then show ?thesis by (rule mult_nonpos_nonpos)
  next
    case False
    then have "19 \<le> k" by simp
    then have "19 \<le> real k" by simp
    then have "0 \<le> real k - 18" "0 \<le> real k - 18.5" by simp_all
    then show ?thesis by (rule mult_nonneg_nonneg)
  qed
  have "arc k + 133.2 = 0.4 * ((real k - 18) * (real k - 18.5))"
    by (simp add: arc_def field_simps)
  with nonneg show ?thesis by simp
qed

lemma arc_36: "arc 36 = - 7.2"
  by (simp add: arc_def)

text \<open>Whole numbers of moderate size are binary64 numbers, and so are their differences.\<close>

lemma binary64_of_int_20:
  assumes "\<bar>n\<bar> \<le> 2 ^ 21"
  shows "binary64 (of_int n) = of_int n"
proof -
  have "(2::int) ^ 21 \<le> 2 ^ 53" by simp
  with assms have "\<bar>n\<bar> \<le> 2 ^ 53" by linarith
  then show ?thesis by (rule binary64_int)
qed

lemma ground_line64:
  assumes H: "CANVAS_HEIGHT cfg = of_int h" and h: "0 \<le> h" "h \<le> 2 ^ 20"
  shows "sub64 (CANVAS_HEIGHT cfg) GROUND_HEIGHT = of_int h - 100"
    and "sub64 (sub64 (CANVAS_HEIGHT cfg) GROUND_HEIGHT) 40 = of_int h - 140"
proof -
  have a: "binary64 (of_int (h - 100)) = of_int (h - 100)"
    using h by (intro binary64_of_int_20) simp
  have b: "binary64 (of_int (h - 140)) = of_int (h - 140)"
    using h by (intro binary64_of_int_20) simp
  show g: "sub64 (CANVAS_HEIGHT cfg) GROUND_HEIGHT = of_int h - 100"
    using a by (simp add: sub64_def H GROUND_HEIGHT_def)
  show "sub64 (sub64 (CANVAS_HEIGHT cfg) GROUND_HEIGHT) 40 = of_int h - 140"
    unfolding g using b by (simp add: sub64_def)
qed

text \<open>
  One airborne update of the jump, with the errors of rounding. The player is at step \<open>k\<close> of
  the arc: its velocity is within \<open>k / 2\<^sup>4\<^sup>9\<close> of \<open>- 15 + 0.8 k\<close> and its position within
  \<open>k / 2\<^sup>3\<^sup>3\<close> of the exact arc. Then neither branch clamps, and the same holds at step
  \<open>k + 1\<close>.
\<close>

lemma flight64_step:
  assumes H: "CANVAS_HEIGHT cfg = of_int h" and h: "274 \<le> h" "h \<le> 2 ^ 20"
    and q: "height_pl q = 40"
      "\<bar>velocityY q - (- 15 + 4 / 5 * real k)\<bar> \<le> real k / 2 ^ 49"
      "\<bar>y_pl q - (of_int h - 140 + arc k)\<bar> \<le> real k / 2 ^ 33"
    and k: "k < 36"
  shows "\<not> clampFires64 cfg q"
    and "\<bar>add64 (velocityY q) GRAVITY64 - (- 15 + 4 / 5 * real (Suc k))\<bar> \<le> real (Suc k) / 2 ^ 49"
    and "\<bar>add64 (y_pl q) (add64 (velocityY q) GRAVITY64) - (of_int h - 140 + arc (Suc k))\<bar>
           \<le> real (Suc k) / 2 ^ 33"
    and "add64 (y_pl q) (add64 (velocityY q) GRAVITY64) + 40 \<le> of_int h - 101"
proof -
  define v where "v = velocityY q"
  define y where "y = y_pl q"
  define w where "w = - 15 + 4 / 5 * real k"
  define v' where "v' = add64 v GRAVITY64"
  define y' where "y' = add64 y v'"
  define Y where "Y = of_int h - 140 + arc k"
  define Y' where "Y' = of_int h - 140 + arc (Suc k)"
  define ev where "ev = real k / 2 ^ 49"
  define ey where "ey = real k / 2 ^ 33"
  have hr: "274 \<le> (of_int h :: real)" "(of_int h :: real) \<le> 1048576"
    using h by (simp_all add: of_int_le_iff [of h "2 ^ 20", where ?'a = real, simplified])
  have kr: "0 \<le> real k" "real k \<le> 35"
    using k by simp_all
  have ev: "0 \<le> ev" "ev \<le> 1 / 2 ^ 43" and ey: "0 \<le> ey" "ey \<le> 1 / 2 ^ 27"
    using kr by (simp_all add: ev_def ey_def field_simps)
  have w: "- 15 \<le> w" "w + 4 / 5 \<le> 69 / 5"
    using kr by (simp_all add: w_def)
  have w': "w + 4 / 5 = - 15 + 4 / 5 * real (Suc k)"
    by (simp add: w_def algebra_simps)
  have qv: "\<bar>v - w\<bar> \<le> ev" and qy: "\<bar>y - Y\<bar> \<le> ey"
    using q by (simp_all add: v_def w_def y_def Y_def ev_def ey_def)
  have "\<bar>w + 4 / 5\<bar> \<le> 15"
    using w unfolding abs_le_iff by linarith
  moreover have "ev \<le> 1 / 2"
    using ev by simp
  ultimately have e1: "\<bar>v' - (w + 4 / 5)\<bar> \<le> ev + 1 / 2 ^ 49"
    unfolding v'_def using qv by (intro add64_GRAVITY64_error)
  have Y': "Y' = Y + (w + 4 / 5)"
    by (simp add: Y'_def Y_def arc_Suc w')
  have a1: "arc (Suc k) \<le> - 7.2" "- 133.2 \<le> arc (Suc k)"
    using k by (intro arc_below_start arc_above_peak; simp)+
  have Yb: "4 / 5 \<le> Y'" "Y' \<le> of_int h - 147.2"
    using a1 hr by (simp_all add: Y'_def)
  have s: "\<bar>(y + v') - Y'\<bar> \<le> ey + ev + 1 / 2 ^ 49"
    using qy e1 unfolding Y' abs_le_iff by linarith
  have "\<bar>y + v'\<bar> < 1048576"
    using s Yb hr ev ey unfolding abs_le_iff abs_less_iff by simp
  then have "\<bar>y + v'\<bar> < 2 powi (19 + 1)"
    by simp
  then have "\<bar>binary64 (y + v') - (y + v')\<bar> \<le> 2 powi (19 - 53)"
    by (rule binary64_error) simp
  then have r: "\<bar>y' - (y + v')\<bar> \<le> 1 / 2 ^ 34"
    by (simp add: y'_def add64_def power_int_minus inverse_eq_divide)
  have e2: "\<bar>y' - Y'\<bar> \<le> ey + 1 / 2 ^ 33"
    using r s ev unfolding abs_le_iff by simp
  have c: "0 < y'"
    using e2 Yb ey unfolding abs_le_iff by simp
  have g0: "y' + 40 \<le> of_int (h - 101)"
    using e2 Yb ey unfolding abs_le_iff by simp
  have "binary64 (of_int (h - 101)) = of_int (h - 101)"
    using h by (intro binary64_of_int_20) simp
  then have "binary64 (y' + 40) \<le> of_int (h - 101)"
    using g0 by (rule binary64_le_representable)
  then have g: "add64 y' 40 < of_int h - 100"
    by (simp add: add64_def)
  have gl: "sub64 (CANVAS_HEIGHT cfg) GROUND_HEIGHT = of_int h - 100"
    using H h by (intro ground_line64) simp_all
  show "\<not> clampFires64 cfg q"
    unfolding clampFires64_phys gl q(1)
    using g c by (simp add: y'_def v'_def y_def v_def)
  show "\<bar>add64 (velocityY q) GRAVITY64 - (- 15 + 4 / 5 * real (Suc k))\<bar> \<le> real (Suc k) / 2 ^ 49"
    using e1 unfolding w' by (simp add: v'_def v_def ev_def add_divide_distrib)
  show "\<bar>add64 (y_pl q) (add64 (velocityY q) GRAVITY64) - (of_int h - 140 + arc (Suc k))\<bar>
           \<le> real (Suc k) / 2 ^ 33"
    using e2 by (simp add: y'_def v'_def y_def v_def Y'_def ey_def add_divide_distrib)
  show "add64 (y_pl q) (add64 (velocityY q) GRAVITY64) + 40 \<le> of_int h - 101"
    using g0 by (simp add: y'_def v'_def y_def v_def)
qed


lemma flight64:
  assumes H: "CANVAS_HEIGHT cfg = of_int h" and h: "274 \<le> h" "h \<le> 2 ^ 20"
    and p: "y_pl p = of_int h - 140" "velocityY p = - 15" "height_pl p = 40"
    and k: "k \<le> 36"
  shows "height_pl (Player_updates64 cfg k p) = 40 \<and>
     \<bar>velocityY (Player_updates64 cfg k p) - (- 15 + 4 / 5 * real k)\<bar> \<le> real k / 2 ^ 49 \<and>
     \<bar>y_pl (Player_updates64 cfg k p) - (of_int h - 140 + arc k)\<bar> \<le> real k / 2 ^ 33 \<and>
     (1 \<le> k \<longrightarrow> \<not> onGround (Player_updates64 cfg k p) \<and>
        y_pl (Player_updates64 cfg k p) + 40 \<le> of_int h - 101) \<and>
     (\<forall>j<k. \<not> clampFires64 cfg (Player_updates64 cfg j p))"
  using k
proof (induction k)
  case 0
  show ?case by (simp add: Player_updates64_0 p arc_0)
next
  case (Suc k)
  let ?q = "Player_updates64 cfg k p"
  from Suc.prems have k: "k < 36" by simp
  with Suc.IH have IH: "height_pl ?q = 40"
    "\<bar>velocityY ?q - (- 15 + 4 / 5 * real k)\<bar> \<le> real k / 2 ^ 49"
    "\<bar>y_pl ?q - (of_int h - 140 + arc k)\<bar> \<le> real k / 2 ^ 33"
    "\<forall>j<k. \<not> clampFires64 cfg (Player_updates64 cfg j p)"
    by simp_all
  note st = flight64_step [OF H h IH(1,2,3) k]
  note u = Player_update64_no_clamp [OF st(1)]
  have "\<forall>j<Suc k. \<not> clampFires64 cfg (Player_updates64 cfg j p)"
    using IH(4) st(1) by (simp add: less_Suc_eq)
  then show ?case
    unfolding Player_updates64_Suc u using st(2,3,4) IH(1) u(4) by simp
qed

lemma hitsGround64_from_below:
  assumes H: "CANVAS_HEIGHT cfg = of_int h" and h: "274 \<le> h" "h \<le> 2 ^ 20"
    and q: "height_pl q = 40"
    and s: "of_int h - 140 \<le> y_pl q + add64 (velocityY q) GRAVITY64"
  shows "hitsGround64 cfg (Player_integrate64 q)"
proof -
  have "binary64 (of_int (h - 140)) = of_int (h - 140)"
    using h by (intro binary64_of_int_20) simp
  moreover have "of_int (h - 140) \<le> y_pl q + add64 (velocityY q) GRAVITY64"
    using s by simp
  ultimately have "of_int (h - 140) \<le> binary64 (y_pl q + add64 (velocityY q) GRAVITY64)"
    by (rule binary64_ge_representable)
  then have a: "of_int (h - 100) \<le> add64 (y_pl q) (add64 (velocityY q) GRAVITY64) + 40"
    by (simp add: add64_def)
  have "binary64 (of_int (h - 100)) = of_int (h - 100)"
    using h by (intro binary64_of_int_20) simp
  then have "of_int (h - 100) \<le> binary64 (add64 (y_pl q) (add64 (velocityY q) GRAVITY64) + 40)"
    using a by (rule binary64_ge_representable)
  then have b: "of_int h - 100 \<le> add64 (add64 (y_pl q) (add64 (velocityY q) GRAVITY64)) 40"
    by (simp add: add64_def)
  have gl: "sub64 (CANVAS_HEIGHT cfg) GROUND_HEIGHT = of_int h - 100"
    using H h by (intro ground_line64) simp_all
  show ?thesis
    unfolding hitsGround64_def gl using b by (simp add: Player_integrate64_def Let_def q)
qed

lemma Player_update64_lands_at:
  assumes H: "CANVAS_HEIGHT cfg = of_int h" and h: "274 \<le> h" "h \<le> 2 ^ 20"
    and q: "height_pl q = 40"
    and s: "of_int h - 140 \<le> y_pl q + add64 (velocityY q) GRAVITY64"
  shows "onGround (fst (Player_update64 cfg q))"
    and "rotation (fst (Player_update64 cfg q)) = 0"
    and "velocityY (fst (Player_update64 cfg q)) = 0"
    and "y_pl (fst (Player_update64 cfg q)) = of_int h - 140"
    and "height_pl (fst (Player_update64 cfg q)) = 40"
proof -
  have g: "hitsGround64 cfg (Player_integrate64 q)"
    using H h q s by (rule hitsGround64_from_below)
  have y: "sub64 (sub64 (CANVAS_HEIGHT cfg) GROUND_HEIGHT) (height_pl q) = of_int h - 140"
    unfolding q using H h by (intro ground_line64) simp_all
  have "(274::real) \<le> of_int h"
    using h by simp
  then have c: "0 < sub64 (sub64 (CANVAS_HEIGHT cfg) GROUND_HEIGHT) (height_pl q)"
    unfolding y by simp
  note l = Player_update64_lands [OF g c]
  show "onGround (fst (Player_update64 cfg q))" by (rule l(1))
  show "rotation (fst (Player_update64 cfg q)) = 0" by (rule l(2))
  show "velocityY (fst (Player_update64 cfg q)) = 0" by (rule l(3))
  show "y_pl (fst (Player_update64 cfg q)) = of_int h - 140" using l(4) y by simp
  show "height_pl (fst (Player_update64 cfg q)) = 40" using l(5) q by simp
qed

lemma Player_reset64_fields:
  assumes H: "CANVAS_HEIGHT cfg = of_int h" and h: "274 \<le> h" "h \<le> 2 ^ 20"
  shows "y_pl (Player_reset64 cfg p) = of_int h - 140"
    and "velocityY (Player_reset64 cfg p) = 0"
    and "height_pl (Player_reset64 cfg p) = 40"
    and "\<not> onGround (Player_reset64 cfg p)"
proof -
  have "sub64 (sub64 (CANVAS_HEIGHT cfg) GROUND_HEIGHT) 40 = of_int h - 140"
    using H h by (intro ground_line64) simp_all
  then show "y_pl (Player_reset64 cfg p) = of_int h - 140"
    by (simp add: Player_reset64_def PLAYER_SIZE_def)
  show "velocityY (Player_reset64 cfg p) = 0" "height_pl (Player_reset64 cfg p) = 40"
    "\<not> onGround (Player_reset64 cfg p)"
    by (simp_all add: Player_reset64_def PLAYER_SIZE_def)
qed

text \<open>A player at rest on the ground line: one update sets \<open>onGround\<close>, and a jump launches it.\<close>

lemma rest_then_jump64:
  assumes H: "CANVAS_HEIGHT cfg = of_int h" and h: "274 \<le> h" "h \<le> 2 ^ 20"
    and p: "y_pl p = of_int h - 140" "velocityY p = 0" "height_pl p = 40"
  shows "onGround (fst (Player_update64 cfg p))"
    and "y_pl (jump (fst (Player_update64 cfg p))) = of_int h - 140"
    and "velocityY (jump (fst (Player_update64 cfg p))) = - 15"
    and "height_pl (jump (fst (Player_update64 cfg p))) = 40"
    and "\<not> onGround (jump (fst (Player_update64 cfg p)))"
proof -
  have "binary64 0 = 0"
    by (rule binary64_0)
  moreover have "0 \<le> 0 + GRAVITY64"
    using GRAVITY64_near(2) by simp
  ultimately have "0 \<le> binary64 (0 + GRAVITY64)"
    by (rule binary64_ge_representable)
  then have s: "of_int h - 140 \<le> y_pl p + add64 (velocityY p) GRAVITY64"
    by (simp add: p add64_def)
  note l = Player_update64_lands_at [OF H h p(3) s]
  show "onGround (fst (Player_update64 cfg p))" by (rule l(1))
  show "y_pl (jump (fst (Player_update64 cfg p))) = of_int h - 140"
    by (simp add: jump_def l)
  show "velocityY (jump (fst (Player_update64 cfg p))) = - 15"
    by (simp add: jump_def l JUMP_FORCE_def)
  show "height_pl (jump (fst (Player_update64 cfg p))) = 40"
    by (simp add: jump_def l)
  show "\<not> onGround (jump (fst (Player_update64 cfg p)))"
    by (simp add: jump_def l)
qed

text \<open>The 37th update after the jump lands the player.\<close>

lemma flight64_lands:
  assumes H: "CANVAS_HEIGHT cfg = of_int h" and h: "274 \<le> h" "h \<le> 2 ^ 20"
    and p: "y_pl p = of_int h - 140" "velocityY p = - 15" "height_pl p = 40"
  shows "onGround (Player_updates64 cfg 37 p)"
    and "rotation (Player_updates64 cfg 37 p) = 0"
    and "y_pl (Player_updates64 cfg 37 p) = of_int h - 140"
    and "height_pl (Player_updates64 cfg 37 p) = 40"
proof -
  let ?q = "Player_updates64 cfg 36 p"
  from flight64 [OF H h p, of 36]
  have q: "height_pl ?q = 40"
    "\<bar>velocityY ?q - (- 15 + 4 / 5 * real (36::nat))\<bar> \<le> real (36::nat) / 2 ^ 49"
    "\<bar>y_pl ?q - (of_int h - 140 + arc 36)\<bar> \<le> real (36::nat) / 2 ^ 33"
    by simp_all
  have v: "69 / 5 - 36 / 2 ^ 49 \<le> velocityY ?q"
    using q(2) unfolding abs_le_iff by simp
  have y: "of_int h - 140 - 36 / 5 - 36 / 2 ^ 33 \<le> y_pl ?q"
    using q(3) unfolding abs_le_iff arc_36 by simp
  have "binary64 14 = 14"
    using binary64_of_int_20 [of 14] by simp
  moreover have "14 \<le> velocityY ?q + GRAVITY64"
    using v GRAVITY64_near(1) unfolding abs_le_iff by simp
  ultimately have "14 \<le> binary64 (velocityY ?q + GRAVITY64)"
    by (rule binary64_ge_representable)
  then have s: "of_int h - 140 \<le> y_pl ?q + add64 (velocityY ?q) GRAVITY64"
    using y by (simp add: add64_def)
  have e: "Player_updates64 cfg 37 p = fst (Player_update64 cfg ?q)"
    using Player_updates64_Suc [of cfg 36 p] by simp
  note l = Player_update64_lands_at [OF H h q(1) s, folded e]
  show "onGround (Player_updates64 cfg 37 p)" by (rule l(1))
  show "rotation (Player_updates64 cfg 37 p) = 0" by (rule l(2))
  show "y_pl (Player_updates64 cfg 37 p) = of_int h - 140" by (rule l(4))
  show "height_pl (Player_updates64 cfg 37 p) = 40" by (rule l(5))
qed

lemma cfg0_height: "CANVAS_HEIGHT cfg0 = of_int 600"
  by (simp add: cfg0_def)

lemma Player_new64_fields:
  assumes H: "CANVAS_HEIGHT cfg = of_int h" and h: "274 \<le> h" "h \<le> 2 ^ 20"
  shows "y_pl (Player_new64 cfg) = of_int h - 140"
    and "velocityY (Player_new64 cfg) = 0"
    and "height_pl (Player_new64 cfg) = 40"
    and "\<not> onGround (Player_new64 cfg)"
  using Player_reset64_fields [OF H h] by (simp_all add: Player_new64_def)

lemma jumper64_fields:
  "y_pl jumper64 = 460" "velocityY jumper64 = - 15" "height_pl jumper64 = 40"
  "\<not> onGround jumper64"
proof -
  have h: "(274::int) \<le> 600" "(600::int) \<le> 2 ^ 20"
    by simp_all
  note f = Player_new64_fields [OF cfg0_height h]
  note r = rest_then_jump64 [OF cfg0_height h f(1,2,3), folded jumper64_def]
  show "y_pl jumper64 = 460" "velocityY jumper64 = - 15" "height_pl jumper64 = 40"
    "\<not> onGround jumper64"
    using r by simp_all
qed


text \<open>
  The binary64 sum of the impulse and two gravities, added one after the other as the updates
  do, is neither the exact \<open>- 15 + 2 \<times> 0.8\<close> nor the binary64 value of that expression: after
  two airborne updates of a player that has just jumped on the 800 by 600 canvas, the
  velocity is \<open>- 1885882343961395 / 2\<^sup>4\<^sup>7\<close>, which JavaScript prints as
  \<^verbatim>\<open>-13.399999999999999\<close>.
\<close>

theorem airborne_velocity_counterexample:
  "\<not> clampFires64 cfg0 (Player_updates64 cfg0 0 jumper64) \<and>
   \<not> clampFires64 cfg0 (Player_updates64 cfg0 1 jumper64) \<and>
   velocityY jumper64 = JUMP_FORCE \<and>
   velocityY (Player_updates64 cfg0 2 jumper64) = - 1885882343961395 / 2 ^ 47 \<and>
   velocityY (Player_updates64 cfg0 2 jumper64) \<noteq> velocityY jumper64 + 2 * GRAVITY \<and>
   velocityY (Player_updates64 cfg0 2 jumper64) \<noteq> velocityY jumper64 + 2 * GRAVITY64 \<and>
   velocityY (Player_updates64 cfg0 2 jumper64) \<noteq>
     add64 (velocityY jumper64) (mul64 2 GRAVITY64)"
proof -
  have h: "(274::int) \<le> 600" "(600::int) \<le> 2 ^ 20"
    by simp_all
  have j: "y_pl jumper64 = of_int 600 - 140"
    by (simp add: jumper64_fields)
  from flight64 [OF cfg0_height h j jumper64_fields(2,3), of 2]
  have n: "\<forall>j<2. \<not> clampFires64 cfg0 (Player_updates64 cfg0 j jumper64)"
    by simp
  then have n01: "\<not> clampFires64 cfg0 (Player_updates64 cfg0 0 jumper64)"
    "\<not> clampFires64 cfg0 (Player_updates64 cfg0 1 jumper64)"
    by simp_all
  have "velocityY (Player_updates64 cfg0 2 jumper64) =
      ((\<lambda>v. add64 v GRAVITY64) ^^ 2) (velocityY jumper64)"
    using n by (rule velocity64_iter)
  then have "velocityY (Player_updates64 cfg0 2 jumper64) =
      add64 (add64 (- 15) GRAVITY64) GRAVITY64"
    by (simp add: jumper64_fields numeral_2_eq_2)
  also have "add64 (- 15) GRAVITY64 = - 3996944669291315 / 2 ^ 48"
    by (simp add: add64_def GRAVITY64_value binary64_eval)
  also have "add64 (- 3996944669291315 / 2 ^ 48) GRAVITY64 = - 1885882343961395 / 2 ^ 47"
    by (simp add: add64_def GRAVITY64_value binary64_eval)
  finally have v: "velocityY (Player_updates64 cfg0 2 jumper64) = - 1885882343961395 / 2 ^ 47" .
  have m: "add64 (- 15) (mul64 2 GRAVITY64) = - 7543529375845581 / 2 ^ 49"
    by (simp add: add64_def mul64_def GRAVITY64_value binary64_eval)
  have a: "velocityY (Player_updates64 cfg0 2 jumper64) \<noteq> velocityY jumper64 + 2 * GRAVITY"
    unfolding v by (simp add: jumper64_fields GRAVITY_def)
  have b: "velocityY (Player_updates64 cfg0 2 jumper64) \<noteq> velocityY jumper64 + 2 * GRAVITY64"
    unfolding v by (simp add: jumper64_fields GRAVITY64_value)
  have c: "velocityY (Player_updates64 cfg0 2 jumper64) \<noteq>
      add64 (velocityY jumper64) (mul64 2 GRAVITY64)"
    unfolding v jumper64_fields m by simp
  from n01 v a b c show ?thesis
    by (simp only: jumper64_fields JUMP_FORCE_def) simp
qed

text \<open>
  Claim C5, as the code has it. Take any player and \<open>n\<close> consecutive updates of it, none of
  which takes the ground branch or the ceiling branch. Then the vertical velocity after the
  \<open>n\<close> updates is the initial velocity to which the binary64 gravity constant has been added
  \<open>n\<close> times, each sum rounded to binary64. While the exact velocities stay between \<open>- 15\<close>
  and 15, as they do in a jump from the ground, this differs from \<open>v0 + n \<times> 0.8\<close> by at most
  \<open>n / 2\<^sup>4\<^sup>9\<close>.
\<close>

theorem airborne_velocity_binary64:
  assumes "\<forall>k<n. \<not> clampFires64 cfg (Player_updates64 cfg k p)"
  shows "velocityY (Player_updates64 cfg n p) =
           ((\<lambda>v. add64 v GRAVITY64) ^^ n) (velocityY p) \<and>
         (\<bar>velocityY p\<bar> \<le> 15 \<and> \<bar>velocityY p + real n * GRAVITY\<bar> \<le> 15 \<longrightarrow>
          \<bar>velocityY (Player_updates64 cfg n p) - (velocityY p + real n * GRAVITY)\<bar>
            \<le> real n / 2 ^ 49)"
proof -
  have v: "velocityY (Player_updates64 cfg n p) =
      ((\<lambda>v. add64 v GRAVITY64) ^^ n) (velocityY p)"
    using assms by (rule velocity64_iter)
  show ?thesis
    unfolding v using velocity64_error [of "velocityY p" n] by simp
qed

theorem airborne_velocity_binary64_witness:
  "\<not> clampFires64 cfg0 (Player_updates64 cfg0 0 jumper64) \<and>
   \<not> clampFires64 cfg0 (Player_updates64 cfg0 1 jumper64) \<and>
   \<not> clampFires64 cfg0 (Player_updates64 cfg0 2 jumper64) \<and>
   \<bar>velocityY jumper64\<bar> \<le> 15 \<and>
   \<bar>velocityY jumper64 + real (3::nat) * GRAVITY\<bar> \<le> 15 \<and>
   velocityY (Player_updates64 cfg0 3 jumper64) =
     ((\<lambda>v. add64 v GRAVITY64) ^^ 3) (velocityY jumper64) \<and>
   \<bar>velocityY (Player_updates64 cfg0 3 jumper64) - (velocityY jumper64 + real (3::nat) * GRAVITY)\<bar>
     \<le> real (3::nat) / 2 ^ 49"
proof -
  have h: "(274::int) \<le> 600" "(600::int) \<le> 2 ^ 20"
    by simp_all
  have j: "y_pl jumper64 = of_int 600 - 140"
    by (simp add: jumper64_fields)
  from flight64 [OF cfg0_height h j jumper64_fields(2,3), of 3]
  have n: "\<forall>k<3. \<not> clampFires64 cfg0 (Player_updates64 cfg0 k jumper64)"
    by simp
  then have n012: "\<not> clampFires64 cfg0 (Player_updates64 cfg0 0 jumper64)"
    "\<not> clampFires64 cfg0 (Player_updates64 cfg0 1 jumper64)"
    "\<not> clampFires64 cfg0 (Player_updates64 cfg0 2 jumper64)"
    by simp_all
  have b: "\<bar>velocityY jumper64\<bar> \<le> 15" "\<bar>velocityY jumper64 + real (3::nat) * GRAVITY\<bar> \<le> 15"
    by (simp_all add: jumper64_fields GRAVITY_def)
  note t = airborne_velocity_binary64 [OF n]
  from t have t1: "velocityY (Player_updates64 cfg0 3 jumper64) =
      ((\<lambda>v. add64 v GRAVITY64) ^^ 3) (velocityY jumper64)"
    by (rule conjunct1)
  from t b have t2: "\<bar>velocityY (Player_updates64 cfg0 3 jumper64) -
      (velocityY jumper64 + real (3::nat) * GRAVITY)\<bar> \<le> real (3::nat) / 2 ^ 49"
    by blast
  from n012 b t1 t2 show ?thesis
    by blast
qed

section \<open>Player: the jump scenario in binary64\<close>

text \<open>
  \<^verbatim>\<open>reset\<close> puts the player on the ground line with \<open>onGround\<close> false, so a jump
  requested before the first update is ignored: on the 800 by 600 canvas the freshly reset
  player rests on the ground line, and after \<^verbatim>\<open>jump()\<close> its velocity is still 0, not the
  impulse.
\<close>

theorem fresh_player_jump_ignored:
  "y_pl (Player_reset64 cfg0 (Player_new64 cfg0)) +
     height_pl (Player_reset64 cfg0 (Player_new64 cfg0)) = CANVAS_HEIGHT cfg0 - GROUND_HEIGHT \<and>
   \<not> onGround (Player_reset64 cfg0 (Player_new64 cfg0)) \<and>
   velocityY (jump (Player_reset64 cfg0 (Player_new64 cfg0))) = 0 \<and>
   velocityY (jump (Player_reset64 cfg0 (Player_new64 cfg0))) \<noteq> JUMP_FORCE"
proof -
  have h: "(274::int) \<le> 600" "(600::int) \<le> 2 ^ 20"
    by simp_all
  note r = Player_reset64_fields [OF cfg0_height h, of "Player_new64 cfg0"]
  have "jump (Player_reset64 cfg0 (Player_new64 cfg0)) = Player_reset64 cfg0 (Player_new64 cfg0)"
    by (simp add: jump_def r)
  then show ?thesis
    by (simp add: r cfg0_height GROUND_HEIGHT_def JUMP_FORCE_def)
qed

text \<open>
  On a low canvas the arc of the jump reaches the ceiling, and the ceiling branch sets the
  velocity to 0 instead of adding gravity: on a canvas of height 150 this happens at the
  first update after the jump.
\<close>

lemma Player_update64_hits_ceiling:
  assumes g: "\<not> hitsGround64 cfg (Player_integrate64 p)"
    and c: "add64 (y_pl p) (add64 (velocityY p) GRAVITY64) \<le> 0"
  shows "velocityY (fst (Player_update64 cfg p)) = 0"
    and "y_pl (fst (Player_update64 cfg p)) = 0"
proof -
  let ?q = "Player_integrate64 p"
  have gr: "Player_ground64 cfg ?q =
      ?q\<lparr>onGround := False, rotation := add64 (rotation ?q) (binary64 0.15)\<rparr>"
    using g by (simp add: Player_ground64_def)
  have "hitsCeiling (Player_ground64 cfg ?q)"
    unfolding gr using c by (simp add: hitsCeiling_def Player_integrate64_def Let_def)
  then have ce: "Player_ceiling (Player_ground64 cfg ?q) =
      (Player_ground64 cfg ?q)\<lparr>y_pl := 0, velocityY := 0\<rparr>"
    by (simp add: Player_ceiling_def)
  have u: "fst (Player_update64 cfg p) =
      (Player_ground64 cfg ?q)\<lparr>y_pl := 0, velocityY := 0,
         trail := trail (fst (Player_update64 cfg p))\<rparr>"
    by (simp add: Player_update64_def Let_def ce)
  show "velocityY (fst (Player_update64 cfg p)) = 0"
    by (subst u) simp
  show "y_pl (fst (Player_update64 cfg p)) = 0"
    by (subst u) simp
qed

lemma Player_integrate64_fields:
  "velocityY (Player_integrate64 p) = add64 (velocityY p) GRAVITY64"
  "y_pl (Player_integrate64 p) = add64 (y_pl p) (add64 (velocityY p) GRAVITY64)"
  "height_pl (Player_integrate64 p) = height_pl p"
  by (simp_all add: Player_integrate64_def Let_def)

lemma low_canvas_jump_hits_ceiling:
  "velocityY (jump (fst (Player_update64 cfgLow (Player_reset64 cfgLow (Player_new64 cfgLow))))) =
     JUMP_FORCE \<and>
   \<not> hitsGround64 cfgLow (Player_integrate64
     (jump (fst (Player_update64 cfgLow (Player_reset64 cfgLow (Player_new64 cfgLow)))))) \<and>
   velocityY (Player_updates64 cfgLow 1
     (jump (fst (Player_update64 cfgLow (Player_reset64 cfgLow (Player_new64 cfgLow)))))) = 0"
proof -
  let ?p0 = "Player_reset64 cfgLow (Player_new64 cfgLow)"
  let ?p1 = "fst (Player_update64 cfgLow ?p0)"
  let ?pj = "jump ?p1"
  have gl: "sub64 (CANVAS_HEIGHT cfgLow) GROUND_HEIGHT = 50"
    by (simp add: cfgLow_def GROUND_HEIGHT_def sub64_def binary64_eval)
  have y0: "sub64 50 40 = 10"
    by (simp add: sub64_def binary64_eval)
  have p0: "y_pl ?p0 = 10" "velocityY ?p0 = 0" "height_pl ?p0 = 40"
    by (simp_all add: Player_reset64_def gl y0 PLAYER_SIZE_def)
  have a0: "add64 0 GRAVITY64 = GRAVITY64"
    by (simp add: add64_def GRAVITY64_def binary64_idem)
  have a1: "add64 10 GRAVITY64 = 3039929748475085 / 2 ^ 48"
    by (simp add: add64_def GRAVITY64_value binary64_eval)
  have a2: "add64 (3039929748475085 / 2 ^ 48) 40 = 3574732204225331 / 2 ^ 46"
    by (simp add: add64_def binary64_eval)
  have g: "hitsGround64 cfgLow (Player_integrate64 ?p0)"
    unfolding hitsGround64_def gl Player_integrate64_fields
    by (simp only: p0 a0 a1 a2) simp
  have c: "0 < sub64 (sub64 (CANVAS_HEIGHT cfgLow) GROUND_HEIGHT) (height_pl ?p0)"
    by (simp only: gl p0 y0)
  note l = Player_update64_lands [OF g c]
  have pj: "y_pl ?pj = 10" "velocityY ?pj = - 15" "height_pl ?pj = 40"
    using l by (simp_all add: jump_def gl p0 y0 JUMP_FORCE_def)
  have b1: "add64 (- 15) GRAVITY64 = - 3996944669291315 / 2 ^ 48"
    by (simp add: add64_def GRAVITY64_value binary64_eval)
  have b2: "add64 10 (- 3996944669291315 / 2 ^ 48) = - 1182194902184755 / 2 ^ 48"
    by (simp add: add64_def binary64_eval)
  have b3: "add64 (- 1182194902184755 / 2 ^ 48) 40 = 2519201041560371 / 2 ^ 46"
    by (simp add: add64_def binary64_eval)
  have ng: "\<not> hitsGround64 cfgLow (Player_integrate64 ?pj)"
    unfolding hitsGround64_def gl Player_integrate64_fields
    by (simp only: pj b1 b2 b3) simp
  have ce: "add64 (y_pl ?pj) (add64 (velocityY ?pj) GRAVITY64) \<le> 0"
    by (simp only: pj b1 b2) simp
  have "Player_updates64 cfgLow 1 ?pj = fst (Player_update64 cfgLow ?pj)"
    using Player_updates64_Suc [of cfgLow 0 ?pj] by (simp add: Player_updates64_0)
  then show ?thesis
    using Player_update64_hits_ceiling(1) [OF ng ce] pj ng by (simp add: JUMP_FORCE_def)
qed

text \<open>
  Claim C4, as the code has it. The canvas height is a whole number (the program reads it
  from \<^verbatim>\<open>window.innerHeight\<close> and \<^verbatim>\<open>canvas.height\<close>), here at least 274, so that the
  arc of the jump stays below the ceiling, and at most \<open>2\<^sup>2\<^sup>0\<close>. Take a freshly reset player. A jump is ignored at once; the
  first update sets \<open>onGround\<close>. A jump then sets the vertical velocity to the impulse and
  clears \<open>onGround\<close>. After \<open>k\<close> further updates, for \<open>k\<close> from 1 to 36, the velocity is the
  impulse to which the binary64 gravity constant has been added \<open>k\<close> times, each sum rounded
  to binary64, which is within \<open>k / 2\<^sup>4\<^sup>9\<close> of the impulse plus \<open>k\<close> times 0.8; the player is
  airborne and its bottom edge is above the ground line. The 37th update brings the bottom
  edge back to the ground line, with \<open>onGround\<close> true and rotation 0.
\<close>

theorem jump_flight_binary64:
  fixes cfg :: CONFIG and p :: Player and k :: nat and h :: int
  defines "pj \<equiv> jump (fst (Player_update64 cfg (Player_reset64 cfg p)))"
  assumes H: "CANVAS_HEIGHT cfg = of_int h" and h: "274 \<le> h" "h \<le> 2 ^ 20"
  shows "jump (Player_reset64 cfg p) = Player_reset64 cfg p \<and>
         onGround (fst (Player_update64 cfg (Player_reset64 cfg p))) \<and>
         velocityY pj = JUMP_FORCE \<and> \<not> onGround pj \<and>
         (1 \<le> k \<and> k \<le> 36 \<longrightarrow>
            velocityY (Player_updates64 cfg k pj) =
              ((\<lambda>v. add64 v GRAVITY64) ^^ k) JUMP_FORCE \<and>
            \<bar>velocityY (Player_updates64 cfg k pj) - (JUMP_FORCE + real k * GRAVITY)\<bar>
              \<le> real k / 2 ^ 49 \<and>
            \<not> onGround (Player_updates64 cfg k pj) \<and>
            y_pl (Player_updates64 cfg k pj) + height_pl (Player_updates64 cfg k pj) <
              CANVAS_HEIGHT cfg - GROUND_HEIGHT) \<and>
         onGround (Player_updates64 cfg 37 pj) \<and>
         rotation (Player_updates64 cfg 37 pj) = 0 \<and>
         y_pl (Player_updates64 cfg 37 pj) + height_pl (Player_updates64 cfg 37 pj) =
           CANVAS_HEIGHT cfg - GROUND_HEIGHT"
proof -
  note f = Player_reset64_fields [OF H h, of p]
  note r = rest_then_jump64 [OF H h f(1,2,3), folded pj_def]
  have noop: "jump (Player_reset64 cfg p) = Player_reset64 cfg p"
    by (simp add: jump_def f)
  have air: "velocityY (Player_updates64 cfg k pj) =
        ((\<lambda>v. add64 v GRAVITY64) ^^ k) JUMP_FORCE \<and>
      \<bar>velocityY (Player_updates64 cfg k pj) - (JUMP_FORCE + real k * GRAVITY)\<bar>
        \<le> real k / 2 ^ 49 \<and>
      \<not> onGround (Player_updates64 cfg k pj) \<and>
      y_pl (Player_updates64 cfg k pj) + height_pl (Player_updates64 cfg k pj) <
        CANVAS_HEIGHT cfg - GROUND_HEIGHT"
    if k: "1 \<le> k" "k \<le> 36"
  proof -
    from flight64 [OF H h r(2,3,4) k(2)] k(1)
    have q: "height_pl (Player_updates64 cfg k pj) = 40"
      "\<bar>velocityY (Player_updates64 cfg k pj) - (- 15 + 4 / 5 * real k)\<bar> \<le> real k / 2 ^ 49"
      "\<not> onGround (Player_updates64 cfg k pj)"
      "y_pl (Player_updates64 cfg k pj) + 40 \<le> of_int h - 101"
      "\<forall>j<k. \<not> clampFires64 cfg (Player_updates64 cfg j pj)"
      by simp_all
    have "velocityY (Player_updates64 cfg k pj) =
        ((\<lambda>v. add64 v GRAVITY64) ^^ k) (velocityY pj)"
      using q(5) by (rule velocity64_iter)
    then have v: "velocityY (Player_updates64 cfg k pj) =
        ((\<lambda>v. add64 v GRAVITY64) ^^ k) JUMP_FORCE"
      by (simp add: r JUMP_FORCE_def)
    have e: "JUMP_FORCE + real k * GRAVITY = - 15 + 4 / 5 * real k"
      by (simp add: JUMP_FORCE_def GRAVITY_def)
    have "y_pl (Player_updates64 cfg k pj) + height_pl (Player_updates64 cfg k pj) <
        CANVAS_HEIGHT cfg - GROUND_HEIGHT"
      using q(4) by (simp add: q(1) H GROUND_HEIGHT_def)
    with v q(2,3) show ?thesis
      unfolding e by simp
  qed
  note l = flight64_lands [OF H h r(2,3,4)]
  have land: "onGround (Player_updates64 cfg 37 pj) \<and> rotation (Player_updates64 cfg 37 pj) = 0 \<and>
      y_pl (Player_updates64 cfg 37 pj) + height_pl (Player_updates64 cfg 37 pj) =
        CANVAS_HEIGHT cfg - GROUND_HEIGHT"
    by (simp add: l H GROUND_HEIGHT_def)
  have vj: "velocityY pj = JUMP_FORCE"
    by (simp add: r JUMP_FORCE_def)
  from noop r(1) vj r(5) air land show ?thesis
    by blast
qed

theorem jump_flight_binary64_witness:
  "CANVAS_HEIGHT cfg0 = of_int 600 \<and> (274::int) \<le> 600 \<and> (600::int) \<le> 2 ^ 20 \<and>
   (1::nat) \<le> 36 \<and> (36::nat) \<le> 36 \<and>
   \<bar>velocityY (Player_updates64 cfg0 36
       (jump (fst (Player_update64 cfg0 (Player_reset64 cfg0 (Player_new64 cfg0)))))) -
     (JUMP_FORCE + real (36::nat) * GRAVITY)\<bar> \<le> real (36::nat) / 2 ^ 49 \<and>
   \<not> onGround (Player_updates64 cfg0 36
       (jump (fst (Player_update64 cfg0 (Player_reset64 cfg0 (Player_new64 cfg0)))))) \<and>
   onGround (Player_updates64 cfg0 37
       (jump (fst (Player_update64 cfg0 (Player_reset64 cfg0 (Player_new64 cfg0))))))"
proof -
  have h: "(274::int) \<le> 600" "(600::int) \<le> 2 ^ 20"
    by simp_all
  have k: "(1::nat) \<le> 36" "(36::nat) \<le> 36"
    by simp_all
  note t = jump_flight_binary64 [OF cfg0_height h, of "Player_new64 cfg0" 36]
  from t k have a: "\<bar>velocityY (Player_updates64 cfg0 36
       (jump (fst (Player_update64 cfg0 (Player_reset64 cfg0 (Player_new64 cfg0)))))) -
     (JUMP_FORCE + real (36::nat) * GRAVITY)\<bar> \<le> real (36::nat) / 2 ^ 49"
    "\<not> onGround (Player_updates64 cfg0 36
       (jump (fst (Player_update64 cfg0 (Player_reset64 cfg0 (Player_new64 cfg0))))))"
    by blast+
  from t have b: "onGround (Player_updates64 cfg0 37
       (jump (fst (Player_update64 cfg0 (Player_reset64 cfg0 (Player_new64 cfg0))))))"
    by blast
  from cfg0_height h k a b show ?thesis
    by blast
qed

end
